theory Spec2Isabelle
  imports Complex_Main "HOL-Library.Multiset" "HOL-Library.Log_Nat"
begin

section \<open>Strings and the term normalizer (module normalize)\<close>

text \<open>
  A JavaScript string is read as its sequence of code units, each below 256 (the Latin-1
  range U+0000 to U+00FF), an Isabelle \<open>string\<close>; strings with a code unit from 256 on are
  outside the model. In this range \<open>toLowerCase\<close> changes \<open>A\<close> to \<open>Z\<close> and the
  letters U+00C0 to U+00DE other than the multiplication sign U+00D7, and the white space
  of \<open>\s\<close> and of \<open>trim\<close> is tab, LF, VT, FF, CR, space and the no-break space U+00A0.
\<close>

definition isUpper :: "char \<Rightarrow> bool" where
  "isUpper c =
     ((65 \<le> (of_char c :: nat) \<and> (of_char c :: nat) \<le> 90) \<or>
      (192 \<le> (of_char c :: nat) \<and> (of_char c :: nat) \<le> 222 \<and> (of_char c :: nat) \<noteq> 215))"

definition isLowerAlnum :: "char \<Rightarrow> bool" where
  \<comment> \<open>the character class \<open>[a-z0-9]\<close>\<close>
  "isLowerAlnum c =
     ((97 \<le> (of_char c :: nat) \<and> (of_char c :: nat) \<le> 122) \<or>
      (48 \<le> (of_char c :: nat) \<and> (of_char c :: nat) \<le> 57))"

definition isSpace :: "char \<Rightarrow> bool" where
  \<comment> \<open>\<open>\s\<close>, and what \<open>trim\<close> removes: tab, LF, VT, FF, CR, space, no-break space\<close>
  "isSpace c =
     ((9 \<le> (of_char c :: nat) \<and> (of_char c :: nat) \<le> 13) \<or>
      (of_char c :: nat) = 32 \<or> (of_char c :: nat) = 160)"

definition toLowerChar :: "char \<Rightarrow> char" where
  "toLowerChar c = (if isUpper c then char_of ((of_char c :: nat) + 32) else c)"

definition toLowerCase :: "string \<Rightarrow> string" where
  "toLowerCase s = map toLowerChar s"

text \<open>\<open>s.replace(/C+/g, ' ')\<close>: every maximal run of characters of the class becomes one space.\<close>

function replaceRuns :: "(char \<Rightarrow> bool) \<Rightarrow> string \<Rightarrow> string" where
  "replaceRuns P [] = []"
| "replaceRuns P (c # cs) =
     (if P c then CHR '' '' # replaceRuns P (dropWhile P cs) else c # replaceRuns P cs)"
  by pat_completeness auto
termination
  by (relation "measure (\<lambda>(P, s). length s)") (auto simp: length_dropWhile_le less_Suc_eq_le)

definition trim :: "string \<Rightarrow> string" where
  "trim s = rev (dropWhile isSpace (rev (dropWhile isSpace s)))"

definition normalizeText :: "string \<Rightarrow> string" where
  "normalizeText v =
     trim (replaceRuns isSpace (replaceRuns (\<lambda>c. \<not> isLowerAlnum c) (toLowerCase v)))"

text \<open>\<open>s.indexOf(t, i)\<close> for a non-empty \<open>t\<close>: the first position at or after \<open>i\<close> where
  \<open>t\<close> occurs, \<open>None\<close> for \<open>-1\<close>.\<close>

function indexOf :: "string \<Rightarrow> string \<Rightarrow> nat \<Rightarrow> nat option" where
  "indexOf s t i =
     (if length s < i + length t then None
      else if take (length t) (drop i s) = t then Some i
      else indexOf s t (Suc i))"
  by pat_completeness auto
termination
  by (relation "measure (\<lambda>(s, t, i). Suc (length s) - i)") auto

lemma indexOf_bounds:
  "indexOf s t i = Some j \<Longrightarrow> i \<le> j \<and> j + length t \<le> length s"
proof (induction s t i rule: indexOf.induct)
  case (1 s t i)
  show ?case
  proof (cases "length s < i + length t")
    case True
    with "1.prems" show ?thesis by (simp add: indexOf.simps [of s t i])
  next
    case False
    note inrange = this
    show ?thesis
    proof (cases "take (length t) (drop i s) = t")
      case True
      with inrange "1.prems" show ?thesis by (simp add: indexOf.simps [of s t i])
    next
      case False
      with inrange "1.prems" have "indexOf s t (Suc i) = Some j"
        by (simp add: indexOf.simps [of s t i])
      with "1.IH" [OF inrange False] show ?thesis by simp
    qed
  qed
qed

declare indexOf.simps [simp del]

text \<open>The \<open>while (index !== -1)\<close> loop of \<open>countTermOccurrences\<close>. The caller has
  returned 0 for an empty term before the loop is reached.\<close>

function countLoop :: "string \<Rightarrow> string \<Rightarrow> nat option \<Rightarrow> nat \<Rightarrow> nat" where
  "countLoop s t None cnt = cnt"
| "countLoop s t (Some i) cnt =
     (if t = [] then cnt
      else countLoop s t (indexOf s t (i + length t)) (cnt + 1))"
  by pat_completeness auto
termination
proof (relation "measure (\<lambda>(s, t, idx, cnt). case idx of None \<Rightarrow> 0 | Some i \<Rightarrow> Suc (Suc (length s) - i))")
  show "wf (measure (\<lambda>(s, t, idx, cnt). case idx of None \<Rightarrow> 0 | Some i \<Rightarrow> Suc (Suc (length s) - i)))"
    by simp
next
  fix s t :: string and i cnt :: nat
  assume ne: "t \<noteq> []"
  show "((s, t, indexOf s t (i + length t), cnt + 1), (s, t, Some i, cnt))
        \<in> measure (\<lambda>(s, t, idx, cnt). case idx of None \<Rightarrow> 0 | Some i \<Rightarrow> Suc (Suc (length s) - i))"
  proof (cases "indexOf s t (i + length t)")
    case None
    then show ?thesis by simp
  next
    case (Some j)
    from indexOf_bounds [OF Some] ne have "i < j" "j \<le> length s"
      by (cases t; simp)+
    with Some show ?thesis by simp
  qed
qed

definition countTermOccurrences :: "string \<Rightarrow> string \<Rightarrow> nat" where
  "countTermOccurrences txt trm =
     (if txt = [] \<or> trm = [] then 0
      else let normalizedText = normalizeText txt;
               normalizedTerm = normalizeText trm
           in if normalizedTerm = [] then 0
              else countLoop normalizedText normalizedTerm
                     (indexOf normalizedText normalizedTerm 0) 0)"


section \<open>Rendering numbers in template strings\<close>

definition digitChar :: "nat \<Rightarrow> char" where
  "digitChar d = char_of (48 + d)"

fun showNat :: "nat \<Rightarrow> string" where
  "showNat n = (if n < 10 then [digitChar n] else showNat (n div 10) @ [digitChar (n mod 10)])"

declare showNat.simps [simp del]

definition showInt :: "int \<Rightarrow> string" where
  "showInt i = (if i < 0 then CHR ''-'' # showNat (nat (- i)) else showNat (nat i))"

section \<open>JavaScript numbers\<close>

text \<open>
  A weight or a score is a JavaScript \<open>number\<close>, an IEEE 754 double: a finite value, given
  here by the rational number it stands for, \<open>NaN\<close>, or an infinity. The code adds,
  subtracts, multiplies and compares these numbers, and none of that tells the two zeros
  apart, so there is one zero.

  A finite double is \<open>m * 2 powi e\<close> with \<open>\<bar>m\<bar> < 2 ^ 53\<close> and \<open>- 1074 \<le> e \<le> 971\<close>.
  The result of an operation is its exact result rounded to the nearest double, ties to
  the even \<open>m\<close>: for a magnitude \<open>a\<close> the exponent is \<open>\<lfloor>log 2 a\<rfloor> - 52\<close>, not below
  \<open>- 1074\<close>, \<open>a\<close> is rounded to a multiple of that power of two, and a rounded magnitude
  that reaches \<open>2 powi 1024\<close> is an infinity.

  The counters of the code (occurrence counts, character, item and page counts, and the
  thresholds they are compared with) are integers.
\<close>

datatype jsNumber = Finite rat | NaN | PosInfinity | NegInfinity

definition minExponent :: int where
  "minExponent = - 1074"

definition overflowBound :: rat where
  "overflowBound = 2 powi 1024"

definition floorLog2 :: "rat \<Rightarrow> int" where
  \<comment> \<open>\<open>\<lfloor>log 2 a\<rfloor>\<close> for \<open>0 < a\<close>, from the bit lengths of numerator and denominator\<close>
  "floorLog2 a =
     (case quotient_of a of (p, q) \<Rightarrow>
        (let d = bitlen p - bitlen q in if 2 powi d \<le> a then d else d - 1))"

definition roundHalfEven :: "rat \<Rightarrow> int" where
  "roundHalfEven q =
     (let f = \<lfloor>q\<rfloor>; r = q - of_int f
      in if r < 1 / 2 then f else if 1 / 2 < r then f + 1 else if even f then f else f + 1)"

definition roundMagnitude :: "rat \<Rightarrow> rat" where
  "roundMagnitude a =
     (let e = max (floorLog2 a - 52) minExponent
      in of_int (roundHalfEven (a / 2 powi e)) * 2 powi e)"

definition roundDouble :: "rat \<Rightarrow> jsNumber" where
  "roundDouble x =
     (if x = 0 then Finite 0
      else let y = roundMagnitude \<bar>x\<bar>
           in if overflowBound \<le> y then (if 0 < x then PosInfinity else NegInfinity)
              else Finite (if 0 < x then y else - y))"

fun jsNeg :: "jsNumber \<Rightarrow> jsNumber" where
  "jsNeg (Finite x) = Finite (- x)"
| "jsNeg NaN = NaN"
| "jsNeg PosInfinity = NegInfinity"
| "jsNeg NegInfinity = PosInfinity"

fun jsAdd :: "jsNumber \<Rightarrow> jsNumber \<Rightarrow> jsNumber" where
  "jsAdd (Finite x) (Finite y) = roundDouble (x + y)"
| "jsAdd (Finite x) NaN = NaN"
| "jsAdd (Finite x) PosInfinity = PosInfinity"
| "jsAdd (Finite x) NegInfinity = NegInfinity"
| "jsAdd NaN b = NaN"
| "jsAdd PosInfinity (Finite y) = PosInfinity"
| "jsAdd PosInfinity NaN = NaN"
| "jsAdd PosInfinity PosInfinity = PosInfinity"
| "jsAdd PosInfinity NegInfinity = NaN"
| "jsAdd NegInfinity (Finite y) = NegInfinity"
| "jsAdd NegInfinity NaN = NaN"
| "jsAdd NegInfinity PosInfinity = NaN"
| "jsAdd NegInfinity NegInfinity = NegInfinity"

definition jsSub :: "jsNumber \<Rightarrow> jsNumber \<Rightarrow> jsNumber" where
  "jsSub a b = jsAdd a (jsNeg b)"

definition infinityTimes :: "jsNumber \<Rightarrow> rat \<Rightarrow> jsNumber" where
  \<comment> \<open>an infinity times a finite number: \<open>NaN\<close> for zero, else the infinity of the sign\<close>
  "infinityTimes i y = (if y = 0 then NaN else if 0 < y then i else jsNeg i)"

fun jsMul :: "jsNumber \<Rightarrow> jsNumber \<Rightarrow> jsNumber" where
  "jsMul (Finite x) (Finite y) = roundDouble (x * y)"
| "jsMul (Finite x) NaN = NaN"
| "jsMul (Finite x) PosInfinity = infinityTimes PosInfinity x"
| "jsMul (Finite x) NegInfinity = infinityTimes NegInfinity x"
| "jsMul NaN b = NaN"
| "jsMul PosInfinity (Finite y) = infinityTimes PosInfinity y"
| "jsMul PosInfinity NaN = NaN"
| "jsMul PosInfinity PosInfinity = PosInfinity"
| "jsMul PosInfinity NegInfinity = NegInfinity"
| "jsMul NegInfinity (Finite y) = infinityTimes NegInfinity y"
| "jsMul NegInfinity NaN = NaN"
| "jsMul NegInfinity PosInfinity = NegInfinity"
| "jsMul NegInfinity NegInfinity = PosInfinity"

text \<open>\<open>a < b\<close> and \<open>a <= b\<close>: false as soon as an operand is \<open>NaN\<close>.\<close>

fun jsLt :: "jsNumber \<Rightarrow> jsNumber \<Rightarrow> bool" where
  "jsLt (Finite x) (Finite y) = (x < y)"
| "jsLt (Finite x) PosInfinity = True"
| "jsLt NegInfinity (Finite y) = True"
| "jsLt NegInfinity PosInfinity = True"
| "jsLt a b = False"

definition jsLe :: "jsNumber \<Rightarrow> jsNumber \<Rightarrow> bool" where
  "jsLe a b = (a \<noteq> NaN \<and> b \<noteq> NaN \<and> \<not> jsLt b a)"



definition ofCount :: "nat \<Rightarrow> jsNumber" where
  \<comment> \<open>a count as a number; every count of the code is far below \<open>2 ^ 53\<close> and so exact\<close>
  "ofCount n = Finite (of_nat n)"

section \<open>Schedules and the compiled configuration (modules schedules and scheduleConfig)\<close>

datatype ScheduleId =
    Admin_General
  | A_Real_Estate
  | B_Stocks_Bonds
  | C_Cash_Notes
  | D_Life_Insurance
  | E_Joint_Property
  | F_Other_Property
  | I_Annuities_Retirement

text \<open>The string that a \<open>ScheduleId\<close> is at run time (it is used in output paths).\<close>

fun scheduleIdString :: "ScheduleId \<Rightarrow> string" where
  "scheduleIdString Admin_General = ''Admin_General''"
| "scheduleIdString A_Real_Estate = ''A_Real_Estate''"
| "scheduleIdString B_Stocks_Bonds = ''B_Stocks_Bonds''"
| "scheduleIdString C_Cash_Notes = ''C_Cash_Notes''"
| "scheduleIdString D_Life_Insurance = ''D_Life_Insurance''"
| "scheduleIdString E_Joint_Property = ''E_Joint_Property''"
| "scheduleIdString F_Other_Property = ''F_Other_Property''"
| "scheduleIdString I_Annuities_Retirement = ''I_Annuities_Retirement''"

record WeightedTerm =
  wterm :: string
  weight :: jsNumber

text \<open>Field \<open>id\<close> of the source is \<open>sid\<close> here (\<open>id\<close> is the identity function of HOL), and
  field \<open>keywords\<close> is \<open>keywordTerms\<close> (a reserved word of the theory language).\<close>

record ScheduleDefinition =
  sid :: ScheduleId
  label :: string
  keywordTerms :: "WeightedTerm list"
  smallTerms :: "WeightedTerm list"

text \<open>A compiled rule holds a \<open>RegExp\<close> without the \<open>g\<close> or \<open>y\<close> flag, whose \<open>test\<close> has no
  state: the pattern is the predicate that \<open>pattern.test\<close> computes.\<close>

record FilenameRule =
  pattern :: "string \<Rightarrow> bool"
  schedule :: ScheduleId

record CompiledScheduleConfig =
  schedules :: "ScheduleDefinition list"
  filenameRules :: "FilenameRule list"

section \<open>The classification engine (module classify)\<close>

definition SCORE_FLOOR :: jsNumber where
  "SCORE_FLOOR = Finite 18"

definition LOW_CONFIDENCE_MARGIN :: jsNumber where
  "LOW_CONFIDENCE_MARGIN = Finite 6"

datatype ClassificationDecision = assigned | review

datatype Candidate = Category ScheduleId | Unknown

record ClassificationResult =
  decision :: ClassificationDecision
  schedule_r :: "ScheduleId option"
  candidate :: "Candidate option"
  reason :: string
  score :: jsNumber
  scores :: "(ScheduleId \<times> jsNumber) list"

record PdfScanMetrics =
  chars :: int
  textItems :: int
  pagesSampled :: int

record ScannedDetectionThresholds =
  minChars :: int
  minTextItems :: int

record ClassifyOptions =
  filename :: string
  doc_text :: string
  isPdf :: bool
  config :: CompiledScheduleConfig
  pdfMetrics :: "PdfScanMetrics option"
  scannedThresholds :: ScannedDetectionThresholds

datatype jsError = TypeError

fun applyFilenameRules :: "string \<Rightarrow> FilenameRule list \<Rightarrow> ScheduleId option" where
  "applyFilenameRules fname [] = None"
| "applyFilenameRules fname (rule # rules) =
     (if pattern rule fname then Some (schedule rule) else applyFilenameRules fname rules)"

definition scoreSchedule :: "string \<Rightarrow> ScheduleDefinition \<Rightarrow> jsNumber" where
  "scoreSchedule txt sd =
     (let score1 = foldl (\<lambda>sc keyword.
                       jsAdd sc (jsMul (ofCount (countTermOccurrences txt (wterm keyword))) (weight keyword)))
                     (Finite 0) (keywordTerms sd)
      in foldl (\<lambda>sc trm. jsAdd sc (jsMul (ofCount (countTermOccurrences txt (wterm trm))) (weight trm)))
           score1 (smallTerms sd))"

text \<open>
  \<open>scores\<close> is a JavaScript object keyed by schedule id. No id is an integer index, so
  \<open>Object.entries\<close> lists the keys in the order of their first assignment: the object is an
  association list, and \<open>scores[k] = v\<close> overwrites in place or appends.
\<close>

fun objSet :: "('k \<times> 'v) list \<Rightarrow> 'k \<Rightarrow> 'v \<Rightarrow> ('k \<times> 'v) list" where
  "objSet [] k v = [(k, v)]"
| "objSet ((k', v') # kvs) k v = (if k' = k then (k', v) # kvs else (k', v') # objSet kvs k v)"

definition fillScores ::
  "(ScheduleDefinition \<Rightarrow> jsNumber) \<Rightarrow> ScheduleDefinition list \<Rightarrow> (ScheduleId \<times> jsNumber) list" where
  \<comment> \<open>\<open>for (const schedule of config.schedules) scores[schedule.id] = f(schedule)\<close>\<close>
  "fillScores f sds = foldl (\<lambda>sc sd. objSet sc (sid sd) (f sd)) [] sds"

text \<open>
  \<open>entries.sort((a, b) => b[1] - a[1])\<close>. The sort is stable. It puts \<open>b\<close> before \<open>a\<close>
  when the comparator's value for \<open>(a, b)\<close> is above 0, and treats the two as equal when the
  value is 0 or \<open>NaN\<close>. When no score is \<open>NaN\<close> the comparator is a consistent order and the
  result is the one stable sorted list, which the insertion sort below computes (an entry
  is inserted in front of the entries that come after it in the input and are not above it).
  With a \<open>NaN\<close> score the comparator is not consistent and the language leaves the order of
  three or more entries to the implementation; the model then gives the order of this
  insertion sort, and no property of the ranking is stated for that case.
\<close>

definition compareScores :: "(ScheduleId \<times> jsNumber) \<Rightarrow> (ScheduleId \<times> jsNumber) \<Rightarrow> jsNumber" where
  "compareScores a b = jsSub (snd b) (snd a)"

fun insertEntry ::
  "(ScheduleId \<times> jsNumber) \<Rightarrow> (ScheduleId \<times> jsNumber) list \<Rightarrow> (ScheduleId \<times> jsNumber) list" where
  "insertEntry a [] = [a]"
| "insertEntry a (b # bs) =
     (if jsLt (Finite 0) (compareScores a b) then b # insertEntry a bs else a # b # bs)"

definition sortByScoreDesc :: "(ScheduleId \<times> jsNumber) list \<Rightarrow> (ScheduleId \<times> jsNumber) list" where
  "sortByScoreDesc entries = foldr insertEntry entries []"


definition scannedReason :: "PdfScanMetrics \<Rightarrow> string" where
  "scannedReason m =
     ''likely_scanned_pdf: low_text_layer (chars='' @ showInt (chars m) @
     '', textItems='' @ showInt (textItems m) @
     '', sampled='' @ showInt (pagesSampled m) @ '')''"

text \<open>
  \<open>classifyDocument\<close>. The array destructuring \<open>const [bestScheduleId, bestScore] = sorted[0]\<close>
  throws a \<open>TypeError\<close> when \<open>sorted\<close> is empty (\<open>sorted[0]\<close> is \<open>undefined\<close>, which is not
  iterable); every other step returns.
\<close>

definition classifyDocument :: "ClassifyOptions \<Rightarrow> jsError + ClassificationResult" where
  "classifyDocument options =
     (let normalizedFilename = normalizeText (filename options);
          filenameMatch = applyFilenameRules normalizedFilename (filenameRules (config options))
      in case filenameMatch of
           Some m \<Rightarrow>
             Inr \<lparr> decision = assigned, schedule_r = Some m, candidate = None,
                   reason = ''filename_rule'', score = SCORE_FLOOR,
                   scores = fillScores (\<lambda>sd. if sid sd = m then SCORE_FLOOR else Finite 0)
                              (schedules (config options)) \<rparr>
         | None \<Rightarrow>
             (let scanned =
                    (case (if isPdf options then pdfMetrics options else None) of
                       Some m \<Rightarrow>
                         if pagesSampled m > 0 \<and>
                            (chars m < minChars (scannedThresholds options) \<or>
                             textItems m < minTextItems (scannedThresholds options))
                         then Some m else None
                     | None \<Rightarrow> None)
              in case scanned of
                Some m \<Rightarrow>
                  Inr \<lparr> decision = review, schedule_r = None, candidate = Some Unknown,
                        reason = scannedReason m, score = Finite 0,
                        scores = fillScores (\<lambda>sd. Finite 0) (schedules (config options)) \<rparr>
              | None \<Rightarrow>
                  if trim (doc_text options) = [] then
                    Inr \<lparr> decision = review, schedule_r = None, candidate = Some Unknown,
                          reason = ''no_text_or_filename_rule'', score = Finite 0,
                          scores = fillScores (\<lambda>sd. Finite 0) (schedules (config options)) \<rparr>
                  else
                    (let sc = fillScores (scoreSchedule (doc_text options)) (schedules (config options));
                         sorted = sortByScoreDesc sc
                     in case sorted of
                          [] \<Rightarrow> Inl TypeError
                        | (bestScheduleId, bestScore) # rest \<Rightarrow>
                            (let runnerUpScore = (case rest of [] \<Rightarrow> Finite 0 | e # _ \<Rightarrow> snd e);
                                 margin = jsSub bestScore runnerUpScore
                             in if jsLt bestScore SCORE_FLOOR \<or> jsLt margin LOW_CONFIDENCE_MARGIN then
                                  Inr \<lparr> decision = review, schedule_r = None,
                                        candidate = Some (Category bestScheduleId),
                                        reason = ''low_confidence'', score = bestScore, scores = sc \<rparr>
                                else
                                  Inr \<lparr> decision = assigned, schedule_r = Some bestScheduleId,
                                        candidate = None,
                                        reason = ''keyword_score'', score = bestScore, scores = sc \<rparr>))))"

text \<open>The same loop started from any partly filled object (used to reason about the loop).\<close>

definition fillFrom ::
  "(ScheduleDefinition \<Rightarrow> jsNumber) \<Rightarrow> (ScheduleId \<times> jsNumber) list \<Rightarrow> ScheduleDefinition list \<Rightarrow>
   (ScheduleId \<times> jsNumber) list" where
  "fillFrom f acc sds = foldl (\<lambda>sc sd. objSet sc (sid sd) (f sd)) acc sds"


section \<open>The processing pipeline (handleRunSort and runWithConcurrency)\<close>

text \<open>
  A selected file is its name (\<open>file.name\<close>), its relative path and its bytes (what
  \<open>file.arrayBuffer()\<close> yields). The text extractor returns the scan metrics together with
  the text (\<open>text_r\<close>) and the page count.
\<close>

record SelectedFile =
  name :: string
  relativePath :: string
  content :: "nat list"

record PdfTextResult = PdfScanMetrics +
  text_r :: string
  numPages :: int

datatype FileDecision = duplicate_f | review_f | assigned_f

fun fileDecision :: "ClassificationDecision \<Rightarrow> FileDecision" where
  "fileDecision assigned = assigned_f"
| "fileDecision review = review_f"

text \<open>The fields that \<open>ProcessedFile\<close> shares by name with \<open>ClassificationResult\<close> carry the
  suffix \<open>_f\<close>. An optional field that the source leaves out is \<open>None\<close>.\<close>

record ProcessedFile = SelectedFile +
  hash :: string
  hashPrefix :: string
  decision_f :: FileDecision
  schedule_f :: "ScheduleId option"
  candidate_f :: "Candidate option"
  reason_f :: string
  score_f :: jsNumber
  outputPath :: string
  scores_f :: "(ScheduleId \<times> jsNumber) list"
  pdfMetrics_f :: "PdfTextResult option"
  textSample :: "string option"
  overrideApplied :: "bool option"

definition endsWith :: "string \<Rightarrow> string \<Rightarrow> bool" where
  "endsWith s t = (length t \<le> length s \<and> drop (length s - length t) s = t)"

definition isPdfFile :: "string \<Rightarrow> bool" where
  "isPdfFile fname = endsWith (toLowerCase fname) ''.pdf''"

definition getHashPrefix :: "string \<Rightarrow> string" where
  "getHashPrefix h = take 10 h"

text \<open>
  What a run reads and does not change: the collaborators (reading the bytes and hashing
  them, and the text extractor; each may throw, \<open>Inl\<close> carrying the thrown value as
  \<open>String(error)\<close> prints it), the compiled configuration, the scan thresholds, the stored
  review overrides, and how the engine prints a thrown \<open>TypeError\<close>.
\<close>

record RunEnv =
  hashArrayBuffer :: "nat list \<Rightarrow> string + string"
  extractPdfText :: "nat list \<Rightarrow> string + PdfTextResult"
  compiledConfig :: CompiledScheduleConfig
  scanThresholds :: ScannedDetectionThresholds
  reviewOverrides :: "string \<Rightarrow> ScheduleId option"
  errorText :: "jsError \<Rightarrow> string"

text \<open>
  What the workers of a run share and change: the list \<open>processed\<close>, the \<open>Map\<close>
  \<open>seenHashes\<close> (keys in insertion order) and \<open>sourcePathsMap\<close>.
\<close>

record RunState =
  processed :: "ProcessedFile list"
  seenHashes :: "(string \<times> ProcessedFile) list"
  sourcePathsMap :: "(string \<times> string list) list"

definition initialRunState :: RunState where
  "initialRunState = \<lparr> processed = [], seenHashes = [], sourcePathsMap = [] \<rparr>"

definition newEntry ::
  "SelectedFile \<Rightarrow> string \<Rightarrow> string \<Rightarrow> FileDecision \<Rightarrow> ScheduleId option \<Rightarrow> Candidate option \<Rightarrow>
   string \<Rightarrow> jsNumber \<Rightarrow> (ScheduleId \<times> jsNumber) list \<Rightarrow> ProcessedFile" where
  \<comment> \<open>the fields every entry literal of \<open>handleRunSort\<close> sets; \<open>outputPath\<close> is \<open>''\<close>\<close>
  "newEntry item h hp dec sched cand rsn sc scs =
     \<lparr> name = name item, relativePath = relativePath item, content = content item,
       hash = h, hashPrefix = hp, decision_f = dec, schedule_f = sched, candidate_f = cand,
       reason_f = rsn, score_f = sc, outputPath = [], scores_f = scs,
       pdfMetrics_f = None, textSample = None, overrideApplied = None \<rparr>"

definition pushEntry :: "ProcessedFile \<Rightarrow> RunState \<Rightarrow> RunState" where
  \<comment> \<open>\<open>processed.push(entry)\<close>\<close>
  "pushEntry e st = st \<lparr> processed := processed st @ [e] \<rparr>"

definition pushFirstSeen :: "ProcessedFile \<Rightarrow> RunState \<Rightarrow> RunState" where
  \<comment> \<open>\<open>processed.push(entry); seenHashes.set(hash, entry)\<close>\<close>
  "pushFirstSeen e st =
     st \<lparr> processed := processed st @ [e], seenHashes := objSet (seenHashes st) (hash e) e \<rparr>"

definition processingError :: "RunEnv \<Rightarrow> SelectedFile \<Rightarrow> nat \<Rightarrow> string \<Rightarrow> RunState \<Rightarrow> RunState" where
  \<comment> \<open>the outer \<open>catch\<close> of the worker\<close>
  "processingError env item index err st =
     (let fallbackHash = ''error-'' @ showNat index;
          fallbackPrefix = getHashPrefix fallbackHash
      in pushEntry (newEntry item fallbackHash fallbackPrefix review_f None (Some Unknown)
                      (''processing_error: '' @ err) (Finite 0) []) st)"

definition classifyAndRecord ::
  "RunEnv \<Rightarrow> SelectedFile \<Rightarrow> nat \<Rightarrow> string \<Rightarrow> string \<Rightarrow> string \<Rightarrow> PdfTextResult option \<Rightarrow>
   RunState \<Rightarrow> RunState" where
  \<comment> \<open>from the call of \<open>classifyDocument\<close> to the end of the worker\<close>
  "classifyAndRecord env item index h hp txt metrics st =
     (case classifyDocument
             \<lparr> filename = name item, doc_text = txt, isPdf = isPdfFile (name item),
               config = compiledConfig env,
               pdfMetrics = map_option PdfScanMetrics.truncate metrics,
               scannedThresholds = scanThresholds env \<rparr> of
        Inl e \<Rightarrow> processingError env item index (errorText env e) st
      | Inr classification \<Rightarrow>
          pushFirstSeen
            ((newEntry item h hp (fileDecision (decision classification))
                (schedule_r classification) (candidate classification)
                (reason classification) (score classification) (scores classification))
               \<lparr> pdfMetrics_f := metrics,
                 textSample := (if decision classification = review then Some (take 200 txt) else None) \<rparr>)
            st)"

text \<open>
  A worker runs without interruption between two \<open>await\<close>s. Before the digest is known it
  touches no shared state. \<open>workerStart\<close> is the stretch from the digest to the end of the
  worker or, for a PDF that is neither a duplicate nor overridden, to
  \<open>await extractPdfText(buffer)\<close>, where the worker is suspended; \<open>workerResume\<close> is the
  stretch after the extraction has settled. The run is never cancelled.
\<close>

datatype Pending = AwaitingExtraction SelectedFile nat string string

definition workerStart :: "RunEnv \<Rightarrow> SelectedFile \<Rightarrow> nat \<Rightarrow> RunState \<Rightarrow> RunState \<times> Pending option" where
  "workerStart env item index st =
     (case hashArrayBuffer env (content item) of
        Inl err \<Rightarrow> (processingError env item index err st, None)
      | Inr h \<Rightarrow>
          (let hp = getHashPrefix h;
               st1 = st \<lparr> sourcePathsMap :=
                        objSet (sourcePathsMap st) hp
                          ((case map_of (sourcePathsMap st) hp of None \<Rightarrow> [] | Some ps \<Rightarrow> ps)
                             @ [relativePath item]) \<rparr>
           in case map_of (seenHashes st1) h of
                Some dup \<Rightarrow>
                  (pushEntry (newEntry item h hp duplicate_f (schedule_f dup) (candidate_f dup)
                                ''sha256_duplicate'' (score_f dup) (scores_f dup)) st1, None)
              | None \<Rightarrow>
                  (case reviewOverrides env h of
                     Some overrideSchedule \<Rightarrow>
                       (pushFirstSeen
                          ((newEntry item h hp assigned_f (Some overrideSchedule) None
                              ''review_override'' SCORE_FLOOR
                              (fillScores (\<lambda>sd. if sid sd = overrideSchedule then SCORE_FLOOR else Finite 0)
                                 (schedules (compiledConfig env))))
                             \<lparr> overrideApplied := Some True \<rparr>) st1, None)
                   | None \<Rightarrow>
                       if isPdfFile (name item)
                       then (st1, Some (AwaitingExtraction item index h hp))
                       else (classifyAndRecord env item index h hp [] None st1, None))))"

fun workerResume :: "RunEnv \<Rightarrow> Pending \<Rightarrow> RunState \<Rightarrow> RunState" where
  "workerResume env (AwaitingExtraction item index h hp) st =
     (case extractPdfText env (content item) of
        Inl err \<Rightarrow>
          pushFirstSeen (newEntry item h hp review_f None (Some Unknown)
                           (''pdf_parse_error: '' @ err) (Finite 0) []) st
      | Inr metrics \<Rightarrow> classifyAndRecord env item index h hp (text_r metrics) (Some metrics) st)"

text \<open>One worker from start to end with nothing in between: what a pool of size 1 does, and
  what the earlier sequential loop of \<open>handleRunSort\<close> did.\<close>

definition processItem :: "RunEnv \<Rightarrow> SelectedFile \<Rightarrow> nat \<Rightarrow> RunState \<Rightarrow> RunState" where
  "processItem env item index st =
     (case workerStart env item index st of
        (st1, None) \<Rightarrow> st1
      | (st1, Some p) \<Rightarrow> workerResume env p st1)"

fun runSequential :: "RunEnv \<Rightarrow> SelectedFile list \<Rightarrow> nat \<Rightarrow> RunState \<Rightarrow> RunState" where
  "runSequential env [] index st = st"
| "runSequential env (item # items) index st =
     runSequential env items (Suc index) (processItem env item index st)"

text \<open>
  \<open>runWithConcurrency\<close>: a worker is started on the next item while fewer than
  \<open>concurrency\<close> workers are in flight; a suspended worker resumes when its extraction
  settles, in any order. The steps below are the interleavings in which the digests settle
  in the order in which the workers were started.
\<close>

record PoolState =
  currentIndex :: nat
  suspended :: "Pending list"
  shared :: RunState

definition pendingList :: "Pending option \<Rightarrow> Pending list" where
  "pendingList p = (case p of None \<Rightarrow> [] | Some x \<Rightarrow> [x])"

definition startNext :: "RunEnv \<Rightarrow> SelectedFile list \<Rightarrow> PoolState \<Rightarrow> PoolState" where
  "startNext env items p =
     (let r = workerStart env (items ! currentIndex p) (currentIndex p) (shared p)
      in \<lparr> currentIndex = Suc (currentIndex p),
           suspended = suspended p @ pendingList (snd r),
           shared = fst r \<rparr>)"

definition resumeWorker :: "RunEnv \<Rightarrow> Pending \<Rightarrow> PoolState \<Rightarrow> PoolState" where
  "resumeWorker env w p =
     \<lparr> currentIndex = currentIndex p,
       suspended = remove1 w (suspended p),
       shared = workerResume env w (shared p) \<rparr>"

inductive poolStep :: "RunEnv \<Rightarrow> SelectedFile list \<Rightarrow> nat \<Rightarrow> PoolState \<Rightarrow> PoolState \<Rightarrow> bool"
  for env :: RunEnv and items :: "SelectedFile list" and concurrency :: nat where
  start:
    "currentIndex p < length items \<Longrightarrow> length (suspended p) < concurrency \<Longrightarrow>
     poolStep env items concurrency p (startNext env items p)"
| resume:
    "w \<in> set (suspended p) \<Longrightarrow>
     poolStep env items concurrency p (resumeWorker env w p)"

definition initialPoolState :: PoolState where
  "initialPoolState = \<lparr> currentIndex = 0, suspended = [], shared = initialRunState \<rparr>"

section \<open>The output path assigner (buildBaseOutputPath, ensureUniqueFilename, assignOutputPaths)\<close>

text \<open>
  \<open>split('/')\<close>, \<open>join('/')\<close> and \<open>lastIndexOf('.')\<close>; a \<open>Set\<close> of names is the list of its
  members, and the \<open>Map\<close> from folder to its set of used names an association list.
  \<open>dupName name counter\<close> is the candidate \<open>`${base}__dup${counter}${ext}`\<close>; the loop that
  looks for a free candidate ends because the candidates are pairwise different and the set of
  used names is finite. \<open>ensureUniqueFilename\<close> returns the name it has chosen together with
  the set to which it has added that name.
\<close>

definition candidateString :: "Candidate \<Rightarrow> string" where
  "candidateString c = (case c of Category k \<Rightarrow> scheduleIdString k | Unknown \<Rightarrow> ''Unknown'')"

definition buildBaseOutputPath :: "ProcessedFile \<Rightarrow> string" where
  "buildBaseOutputPath file =
     (if decision_f file = duplicate_f then ''DUPLICATES/'' @ hashPrefix file @ ''/'' @ name file
      else if decision_f file = review_f then
        ''706/ReviewNeeded/'' @
          candidateString (case candidate_f file of None \<Rightarrow> Unknown | Some c \<Rightarrow> c) @ ''/'' @ name file
      else ''706/'' @ (case schedule_f file of None \<Rightarrow> ''undefined'' | Some k \<Rightarrow> scheduleIdString k)
             @ ''/'' @ name file)"

fun splitOn :: "char \<Rightarrow> string \<Rightarrow> string list" where
  "splitOn c [] = [] # []"
| "splitOn c (x # xs) =
     (if x = c then [] # splitOn c xs
      else (case splitOn c xs of [] \<Rightarrow> [x] # [] | s # ss \<Rightarrow> (x # s) # ss))"

fun joinWith :: "string \<Rightarrow> string list \<Rightarrow> string" where
  "joinWith sep [] = []"
| "joinWith sep [s] = s"
| "joinWith sep (s # t # ss) = s @ sep @ joinWith sep (t # ss)"

fun lastIndexOf :: "char \<Rightarrow> string \<Rightarrow> nat option" where
  "lastIndexOf c [] = None"
| "lastIndexOf c (x # xs) =
     (case lastIndexOf c xs of
        Some i \<Rightarrow> Some (Suc i)
      | None \<Rightarrow> if x = c then Some 0 else None)"

definition dupName :: "string \<Rightarrow> nat \<Rightarrow> string" where
  "dupName nm counter =
     (let dotIndex = lastIndexOf CHR ''.'' nm;
          base = (case dotIndex of None \<Rightarrow> nm | Some i \<Rightarrow> take i nm);
          ext = (case dotIndex of None \<Rightarrow> [] | Some i \<Rightarrow> drop i nm)
      in base @ ''__dup'' @ showNat counter @ ext)"

lemma showNat_nonempty: "showNat n \<noteq> []"
  by (subst showNat.simps) simp

lemma digitChar_inj: "a < 10 \<Longrightarrow> b < 10 \<Longrightarrow> digitChar a = digitChar b \<Longrightarrow> a = b"
proof -
  assume a: "a < 10" and b: "b < 10" and e: "digitChar a = digitChar b"
  from e have "(of_char (char_of (48 + a)) :: nat) = of_char (char_of (48 + b))"
    by (simp add: digitChar_def)
  then have "(48 + a) mod 256 = (48 + b) mod 256" by simp
  with a b show "a = b" by simp
qed

lemma showNat_inj: "showNat n = showNat m \<Longrightarrow> n = m"
proof (induction n arbitrary: m rule: showNat.induct)
  case (1 n)
  show ?case
  proof (cases "n < 10")
    case True
    note n = this
    show ?thesis
    proof (cases "m < 10")
      case True
      with n "1.prems" show ?thesis
        by (simp add: showNat.simps [of n] showNat.simps [of m] digitChar_inj)
    next
      case False
      with n "1.prems" showNat_nonempty [of "m div 10"] show ?thesis
        by (simp add: showNat.simps [of n] showNat.simps [of m])
    qed
  next
    case False
    note n = this
    show ?thesis
    proof (cases "m < 10")
      case True
      with n "1.prems" showNat_nonempty [of "n div 10"] show ?thesis
        by (simp add: showNat.simps [of n] showNat.simps [of m])
    next
      case False
      with n "1.prems" have e: "showNat (n div 10) = showNat (m div 10)"
        "digitChar (n mod 10) = digitChar (m mod 10)"
        by (simp_all add: showNat.simps [of n] showNat.simps [of m])
      from "1.IH" [OF n e(1)] have "n div 10 = m div 10" .
      moreover from e(2) have "n mod 10 = m mod 10" by (intro digitChar_inj) simp_all
      ultimately show ?thesis by (metis div_mult_mod_eq)
    qed
  qed
qed

lemma dupName_inj: "dupName nm j = dupName nm k \<Longrightarrow> j = k"
  by (auto simp: dupName_def Let_def dest: showNat_inj)

function dupLoop :: "string \<Rightarrow> string list \<Rightarrow> nat \<Rightarrow> string" where
  "dupLoop nm usedNames counter =
     (if dupName nm counter \<in> set usedNames then dupLoop nm usedNames (counter + 1)
      else dupName nm counter)"
  by pat_completeness auto
termination
proof (relation "measure (\<lambda>(nm, usedNames, counter). card {k. counter \<le> k \<and> dupName nm k \<in> set usedNames})")
  show "wf (measure (\<lambda>(nm, usedNames, counter). card {k. counter \<le> k \<and> dupName nm k \<in> set usedNames}))"
    by simp
next
  fix nm :: string and usedNames :: "string list" and counter :: nat
  assume taken: "dupName nm counter \<in> set usedNames"
  let ?S = "\<lambda>c. {k. c \<le> k \<and> dupName nm k \<in> set usedNames}"
  have "inj_on (dupName nm) (?S counter)"
    by (rule inj_onI) (rule dupName_inj)
  moreover have "dupName nm ` ?S counter \<subseteq> set usedNames" by auto
  ultimately have fin: "finite (?S counter)"
    by (metis List.finite_set inj_on_finite)
  have "counter \<in> ?S counter" "counter \<notin> ?S (counter + 1)" "?S (counter + 1) \<subseteq> ?S counter"
    using taken by auto
  then have "?S (counter + 1) \<subset> ?S counter" by blast
  with fin have "card (?S (counter + 1)) < card (?S counter)"
    by (rule psubset_card_mono)
  then show "((nm, usedNames, counter + 1), (nm, usedNames, counter))
          \<in> measure (\<lambda>(nm, usedNames, counter). card {k. counter \<le> k \<and> dupName nm k \<in> set usedNames})"
    by simp
qed

declare dupLoop.simps [simp del]

definition ensureUniqueFilename :: "string \<Rightarrow> string list \<Rightarrow> string \<times> string list" where
  "ensureUniqueFilename nm usedNames =
     (if nm \<notin> set usedNames then (nm, usedNames @ [nm])
      else (let candidate = dupLoop nm usedNames 1 in (candidate, usedNames @ [candidate])))"

fun assignLoop :: "(string \<times> string list) list \<Rightarrow> ProcessedFile list \<Rightarrow> ProcessedFile list" where
  "assignLoop usedNamesByFolder [] = []"
| "assignLoop usedNamesByFolder (file # files) =
     (let basePath = buildBaseOutputPath file;
          segments = splitOn CHR ''/'' basePath;
          fname = last segments;
          dir = joinWith ''/'' (butlast segments);
          used = (case map_of usedNamesByFolder dir of None \<Rightarrow> [] | Some u \<Rightarrow> u);
          (uniqueName, used') = ensureUniqueFilename fname used
      in file \<lparr> outputPath := (if dir \<noteq> [] then dir @ ''/'' @ uniqueName else uniqueName) \<rparr>
           # assignLoop (objSet usedNamesByFolder dir used') files)"

definition assignOutputPaths :: "ProcessedFile list \<Rightarrow> ProcessedFile list" where
  "assignOutputPaths files = assignLoop [] files"


text \<open>The path that \<open>assignOutputPaths\<close> builds from a folder and a name, the names used in a
  folder, and the folder and the file name of the base path of an entry.\<close>

definition pathJoin :: "string \<Rightarrow> string \<Rightarrow> string" where
  "pathJoin dir u = (if dir \<noteq> [] then dir @ ''/'' @ u else u)"

definition usedIn :: "(string \<times> string list) list \<Rightarrow> string \<Rightarrow> string list" where
  "usedIn usedNamesByFolder dir = (case map_of usedNamesByFolder dir of None \<Rightarrow> [] | Some u \<Rightarrow> u)"


definition folderOf :: "ProcessedFile \<Rightarrow> string" where
  "folderOf f = joinWith ''/'' (butlast (splitOn CHR ''/'' (buildBaseOutputPath f)))"

definition fileNameOf :: "ProcessedFile \<Rightarrow> string" where
  "fileNameOf f = last (splitOn CHR ''/'' (buildBaseOutputPath f))"


section \<open>Review clustering (buildReviewClusters)\<close>

text \<open>
  Field \<open>id\<close> of a cluster is \<open>cid\<close>. \<open>arrayFromSet xs\<close> is \<open>Array.from(new Set(xs))\<close>: the
  members in the order of their first occurrence. \<open>sharedCount\<close> is the length of
  \<open>tokens.filter((token) => cluster.tokens.includes(token))\<close>, \<open>joinCluster\<close> the inner loop
  over the clusters (\<open>None\<close> when the file was not assigned), \<open>clusterStep\<close> the body of the
  outer loop.
\<close>

record Cluster =
  cid :: string
  tokens :: "string list"
  items :: "ProcessedFile list"



definition addAll :: "'a list \<Rightarrow> 'a list \<Rightarrow> 'a list" where
  "addAll acc xs = foldl (\<lambda>acc x. if x \<in> set acc then acc else acc @ [x]) acc xs"

definition arrayFromSet :: "'a list \<Rightarrow> 'a list" where
  "arrayFromSet xs = addAll [] xs"










text \<open>The tokens that a file's token list shares with a cluster, each of them once.\<close>

definition sharedTokens :: "Cluster \<Rightarrow> string list \<Rightarrow> string list" where
  "sharedTokens cluster toks = remdups (filter (\<lambda>token. token \<in> set (tokens cluster)) toks)"


section \<open>Configuration validation (validateScheduleConfig)\<close>

text \<open>
  The argument is any JavaScript value that \<open>JSON.parse\<close> can produce, or \<open>undefined\<close>; a
  number is finite, \<open>NaN\<close> or an infinity (\<open>JSON.parse('1e999')\<close> is \<open>Infinity\<close>). \<open>getProp\<close>
  reads one of the property names that the validator uses from a value that is neither
  \<open>null\<close> nor \<open>undefined\<close>: arrays, strings, numbers and booleans have none of them. Reading
  a property of \<open>null\<close> or \<open>undefined\<close>, and calling \<open>.entries()\<close> on a value that is not an
  array, throw a \<open>TypeError\<close>. Each error message is a constructor that carries what the
  message embeds. \<open>new RegExp(pattern, 'i')\<close> is a parameter: the error it throws, if any.
\<close>


datatype jsValue =
    JUndefined
  | JNull
  | JBool bool
  | JNumber jsNumber
  | JString string
  | JArray "jsValue list"
  | JObject "(string \<times> jsValue) list"

datatype jsType = TUndefined | TObject | TBoolean | TNumber | TString

fun typeOf :: "jsValue \<Rightarrow> jsType" where
  "typeOf JUndefined = TUndefined"
| "typeOf JNull = TObject"
| "typeOf (JBool b) = TBoolean"
| "typeOf (JNumber n) = TNumber"
| "typeOf (JString s) = TString"
| "typeOf (JArray xs) = TObject"
| "typeOf (JObject kvs) = TObject"

fun truthy :: "jsValue \<Rightarrow> bool" where
  "truthy JUndefined = False"
| "truthy JNull = False"
| "truthy (JBool b) = b"
| "truthy (JNumber n) = (n \<noteq> Finite 0 \<and> n \<noteq> NaN)"
| "truthy (JString s) = (s \<noteq> [])"
| "truthy (JArray xs) = True"
| "truthy (JObject kvs) = True"

fun isArray :: "jsValue \<Rightarrow> bool" where
  "isArray (JArray xs) = True"
| "isArray v = False"

fun isNaN :: "jsValue \<Rightarrow> bool" where
  "isNaN (JNumber NaN) = True"
| "isNaN v = False"

fun nullish :: "jsValue \<Rightarrow> bool" where
  "nullish JUndefined = True"
| "nullish JNull = True"
| "nullish v = False"

fun getProp :: "jsValue \<Rightarrow> string \<Rightarrow> jsValue" where
  "getProp (JObject kvs) key = (case map_of kvs key of Some v \<Rightarrow> v | None \<Rightarrow> JUndefined)"
| "getProp v key = JUndefined"

fun elements :: "jsValue \<Rightarrow> jsValue list" where
  "elements (JArray xs) = xs"
| "elements v = []"

datatype validationError =
    ConfigMustBeObject
  | SchedulesMustBeArray
  | FilenameRulesMustBeArray
  | ScheduleMustBeObject nat
  | ScheduleMissingId nat
  | ScheduleMissingLabel nat
  | KeywordsMustBeArray jsValue
  | SmallTermsMustBeArray jsValue
  | KeywordTermMustBeString jsValue nat
  | KeywordWeightMustBeNumber jsValue nat
  | SmallTermTermMustBeString jsValue nat
  | SmallTermWeightMustBeNumber jsValue nat
  | RuleMustBeObject nat
  | RulePatternMustBeString nat
  | RuleNotValidRegex string string
  | RuleScheduleMustBeString nat

record ValidationResult =
  config_v :: "jsValue option"
  errors :: "validationError list"

fun collect :: "('a \<Rightarrow> jsError + 'e list) \<Rightarrow> 'a list \<Rightarrow> jsError + 'e list" where
  "collect f [] = Inr []"
| "collect f (x # xs) =
     (case f x of
        Inl e \<Rightarrow> Inl e
      | Inr es \<Rightarrow> (case collect f xs of Inl e \<Rightarrow> Inl e | Inr es' \<Rightarrow> Inr (es @ es')))"

definition entriesOf :: "jsValue \<Rightarrow> jsError + (nat \<times> jsValue) list" where
  "entriesOf v =
     (if nullish v then Inr []
      else if isArray v then Inr (enumerate 0 (elements v))
      else Inl TypeError)"

definition checkTerm ::
  "(nat \<Rightarrow> validationError) \<Rightarrow> (nat \<Rightarrow> validationError) \<Rightarrow> nat \<times> jsValue \<Rightarrow> jsError + validationError list" where
  "checkTerm termError weightError e =
     (case e of (termIndex, keyword) \<Rightarrow>
        if nullish keyword then Inl TypeError
        else Inr ((if typeOf (getProp keyword ''term'') \<noteq> TString then [termError termIndex] else []) @
                  (if typeOf (getProp keyword ''weight'') \<noteq> TNumber \<or> isNaN (getProp keyword ''weight'')
                   then [weightError termIndex] else [])))"

definition checkTerms ::
  "(nat \<Rightarrow> validationError) \<Rightarrow> (nat \<Rightarrow> validationError) \<Rightarrow> jsValue \<Rightarrow> jsError + validationError list" where
  "checkTerms termError weightError v =
     (case entriesOf v of
        Inl e \<Rightarrow> Inl e
      | Inr es \<Rightarrow> collect (checkTerm termError weightError) es)"

definition checkSchedule :: "nat \<times> jsValue \<Rightarrow> jsError + validationError list" where
  "checkSchedule e =
     (case e of (index, sched) \<Rightarrow>
        if \<not> truthy sched \<or> typeOf sched \<noteq> TObject then Inr [ScheduleMustBeObject index]
        else
          (let sid = getProp sched ''id'';
               errs =
                 (if typeOf sid \<noteq> TString \<or> \<not> truthy sid then [ScheduleMissingId index] else []) @
                 (if typeOf (getProp sched ''label'') \<noteq> TString \<or> \<not> truthy (getProp sched ''label'')
                  then [ScheduleMissingLabel index] else []) @
                 (if \<not> isArray (getProp sched ''keywords'') then [KeywordsMustBeArray sid] else []) @
                 (if \<not> isArray (getProp sched ''smallTerms'') then [SmallTermsMustBeArray sid] else [])
           in case checkTerms (KeywordTermMustBeString sid) (KeywordWeightMustBeNumber sid)
                     (getProp sched ''keywords'') of
                Inl e \<Rightarrow> Inl e
              | Inr kwErrs \<Rightarrow>
                  (case checkTerms (SmallTermTermMustBeString sid) (SmallTermWeightMustBeNumber sid)
                          (getProp sched ''smallTerms'') of
                     Inl e \<Rightarrow> Inl e
                   | Inr stErrs \<Rightarrow> Inr (errs @ kwErrs @ stErrs))))"

definition checkRule :: "(string \<Rightarrow> string option) \<Rightarrow> nat \<times> jsValue \<Rightarrow> jsError + validationError list" where
  "checkRule regexError e =
     (case e of (index, rl) \<Rightarrow>
        if \<not> truthy rl \<or> typeOf rl \<noteq> TObject then Inr [RuleMustBeObject index]
        else Inr
          ((case getProp rl ''pattern'' of
              JString p \<Rightarrow>
                if p = [] then [RulePatternMustBeString index]
                else (case regexError p of None \<Rightarrow> [] | Some err \<Rightarrow> [RuleNotValidRegex p err])
            | _ \<Rightarrow> [RulePatternMustBeString index]) @
           (if typeOf (getProp rl ''schedule'') \<noteq> TString \<or> \<not> truthy (getProp rl ''schedule'')
            then [RuleScheduleMustBeString index] else [])))"

definition validateScheduleConfig :: "(string \<Rightarrow> string option) \<Rightarrow> jsValue \<Rightarrow> jsError + ValidationResult" where
  "validateScheduleConfig regexError raw =
     (if \<not> truthy raw \<or> typeOf raw \<noteq> TObject
      then Inr \<lparr> config_v = None, errors = [ConfigMustBeObject] \<rparr>
      else
        (let errs0 =
               (if \<not> isArray (getProp raw ''schedules'') then [SchedulesMustBeArray] else []) @
               (if \<not> isArray (getProp raw ''filenameRules'') then [FilenameRulesMustBeArray] else []);
             scheduleList = elements (getProp raw ''schedules'');
             ruleList = elements (getProp raw ''filenameRules'')
         in case collect checkSchedule (enumerate 0 scheduleList) of
              Inl e \<Rightarrow> Inl e
            | Inr errs1 \<Rightarrow>
                (case collect (checkRule regexError) (enumerate 0 ruleList) of
                   Inl e \<Rightarrow> Inl e
                 | Inr errs2 \<Rightarrow>
                     (let errs = errs0 @ errs1 @ errs2
                      in if length errs > 0 then Inr \<lparr> config_v = None, errors = errs \<rparr>
                         else Inr \<lparr> config_v = Some raw, errors = [] \<rparr>))))"


text \<open>When looping over a keyword list throws: the value is neither an array, nor \<open>null\<close>, nor
  \<open>undefined\<close>, or it is an array that holds \<open>null\<close> or \<open>undefined\<close>.\<close>

definition throwingTerms :: "jsValue \<Rightarrow> bool" where
  "throwingTerms v =
     ((\<not> nullish v \<and> \<not> isArray v) \<or> (isArray v \<and> list_ex nullish (elements v)))"


text \<open>
  The structural checks in the words of the specification, with the test on weights that the
  code makes: a number that is not \<open>NaN\<close>.
\<close>

definition validTerm :: "jsValue \<Rightarrow> bool" where
  "validTerm kw =
     (typeOf (getProp kw ''term'') = TString \<and>
      typeOf (getProp kw ''weight'') = TNumber \<and> \<not> isNaN (getProp kw ''weight''))"

definition validSchedule :: "jsValue \<Rightarrow> bool" where
  "validSchedule s =
     (truthy s \<and> typeOf s = TObject \<and>
      typeOf (getProp s ''id'') = TString \<and> truthy (getProp s ''id'') \<and>
      typeOf (getProp s ''label'') = TString \<and> truthy (getProp s ''label'') \<and>
      isArray (getProp s ''keywords'') \<and> isArray (getProp s ''smallTerms'') \<and>
      (\<forall>kw \<in> set (elements (getProp s ''keywords'')). validTerm kw) \<and>
      (\<forall>kw \<in> set (elements (getProp s ''smallTerms'')). validTerm kw))"

definition validRule :: "(string \<Rightarrow> string option) \<Rightarrow> jsValue \<Rightarrow> bool" where
  "validRule regexError r =
     (truthy r \<and> typeOf r = TObject \<and>
      (case getProp r ''pattern'' of JString p \<Rightarrow> p \<noteq> [] \<and> regexError p = None | _ \<Rightarrow> False) \<and>
      typeOf (getProp r ''schedule'') = TString \<and> truthy (getProp r ''schedule''))"

definition structurallyValid :: "(string \<Rightarrow> string option) \<Rightarrow> jsValue \<Rightarrow> bool" where
  "structurallyValid regexError raw =
     (truthy raw \<and> typeOf raw = TObject \<and>
      isArray (getProp raw ''schedules'') \<and> isArray (getProp raw ''filenameRules'') \<and>
      (\<forall>s \<in> set (elements (getProp raw ''schedules'')). validSchedule s) \<and>
      (\<forall>r \<in> set (elements (getProp raw ''filenameRules'')). validRule regexError r))"


text \<open>
  The score of a category in the words of the specification: the sum, over its keywords and
  then its small terms, of occurrence count times weight, each product and each partial sum
  being a number of the code; and the score vector as the list of the configured categories
  in declaration order, each with its score.
\<close>

definition termScore :: "string \<Rightarrow> WeightedTerm \<Rightarrow> jsNumber" where
  "termScore txt k = jsMul (ofCount (countTermOccurrences txt (wterm k))) (weight k)"

definition jsSum :: "jsNumber list \<Rightarrow> jsNumber" where
  "jsSum xs = foldl jsAdd (Finite 0) xs"

definition categoryScore :: "string \<Rightarrow> ScheduleDefinition \<Rightarrow> jsNumber" where
  "categoryScore txt sd = jsSum (map (termScore txt) (keywordTerms sd @ smallTerms sd))"

definition categoryEntries :: "string \<Rightarrow> ScheduleDefinition list \<Rightarrow> (ScheduleId \<times> jsNumber) list" where
  "categoryEntries txt sds = map (\<lambda>sd. (sid sd, categoryScore txt sd)) sds"


definition weightInt :: "jsNumber \<Rightarrow> int" where
  "weightInt w = (case w of Finite x \<Rightarrow> \<lfloor>x\<rfloor> | _ \<Rightarrow> 0)"

definition exactScore :: "string \<Rightarrow> ScheduleDefinition \<Rightarrow> int" where
  "exactScore txt sd =
     (\<Sum>k \<leftarrow> keywordTerms sd @ smallTerms sd. int (countTermOccurrences txt (wterm k)) * weightInt (weight k))"







section \<open>Example inputs\<close>

definition ex_deedRule :: FilenameRule where
  "ex_deedRule = \<lparr> pattern = (\<lambda>s. indexOf s ''deed'' 0 \<noteq> None), schedule = A_Real_Estate \<rparr>"

definition ex_schedules :: "ScheduleDefinition list" where
  "ex_schedules =
     [\<lparr> sid = A_Real_Estate, label = ''Schedule A - Real Estate'',
         keywordTerms = [\<lparr> wterm = ''deed'', weight = Finite 10 \<rparr>], smallTerms = [\<lparr> wterm = ''parcel'', weight = Finite 2 \<rparr>] \<rparr>,
      \<lparr> sid = B_Stocks_Bonds, label = ''Schedule B - Stocks & Bonds'',
         keywordTerms = [\<lparr> wterm = ''brokerage statement'', weight = Finite 8 \<rparr>], smallTerms = [\<lparr> wterm = ''shares'', weight = Finite 4 \<rparr>] \<rparr>]"

definition ex_thresholds :: ScannedDetectionThresholds where
  "ex_thresholds = \<lparr> minChars = 250, minTextItems = 30 \<rparr>"

definition ex_ruleDoc :: ClassifyOptions where
  "ex_ruleDoc = \<lparr> filename = ''Deed_123_Main_St.pdf'',
      doc_text = ''brokerage statement shares shares shares brokerage statement brokerage statement'',
      isPdf = True, config = \<lparr> schedules = ex_schedules, filenameRules = [ex_deedRule] \<rparr>,
      pdfMetrics = Some \<lparr> chars = 80, textItems = 12, pagesSampled = 1 \<rparr>,
      scannedThresholds = ex_thresholds \<rparr>"


text \<open>
  Three rules, of which the second and the third match the file name \<open>Deed_123_Main_St.pdf\<close>;
  and a rule whose target is not among the configured categories.
\<close>

definition ex_containsRule :: "string \<Rightarrow> ScheduleId \<Rightarrow> FilenameRule" where
  "ex_containsRule w target = \<lparr> pattern = (\<lambda>s. indexOf s w 0 \<noteq> None), schedule = target \<rparr>"


definition ex_orphan :: ClassifyOptions where
  "ex_orphan = \<lparr> filename = ''bank_letter.txt'', doc_text = ''deed deed'', isPdf = False,
      config = \<lparr> schedules = ex_schedules,
                 filenameRules = [ex_containsRule ''bank'' C_Cash_Notes] \<rparr>,
      pdfMetrics = None, scannedThresholds = ex_thresholds \<rparr>"

definition ex_noCategories :: ClassifyOptions where
  "ex_noCategories = \<lparr> filename = ''notes.txt'', doc_text = ''hello'', isPdf = False,
      config = \<lparr> schedules = [], filenameRules = [] \<rparr>,
      pdfMetrics = None, scannedThresholds = ex_thresholds \<rparr>"

definition ex_zeroPages :: ClassifyOptions where
  "ex_zeroPages = \<lparr> filename = ''scan.pdf'', doc_text = '''', isPdf = True,
      config = \<lparr> schedules = ex_schedules, filenameRules = [ex_deedRule] \<rparr>,
      pdfMetrics = Some \<lparr> chars = 0, textItems = 0, pagesSampled = 0 \<rparr>,
      scannedThresholds = ex_thresholds \<rparr>"

definition ex_scanDoc :: ClassifyOptions where
  "ex_scanDoc = ex_ruleDoc \<lparr> filename := ''scan_0042.pdf'' \<rparr>"


text \<open>
  A configuration that declares the category \<open>A_Real_Estate\<close> twice; one with an infinite
  weight on a term that does not occur; and a category whose two weights add up to
  \<open>2 ^ 53 + 1\<close>, which is not a double.
\<close>

definition ex_repeatedId :: ClassifyOptions where
  "ex_repeatedId = \<lparr> filename = ''memo.txt'', doc_text = ''deed deed'', isPdf = False,
      config = \<lparr> schedules =
                   [\<lparr> sid = A_Real_Estate, label = ''Schedule A - Real Estate'',
                       keywordTerms = [\<lparr> wterm = ''deed'', weight = Finite 10 \<rparr>], smallTerms = [] \<rparr>,
                    \<lparr> sid = A_Real_Estate, label = ''Schedule A - Land'',
                       keywordTerms = [\<lparr> wterm = ''parcel'', weight = Finite 10 \<rparr>], smallTerms = [] \<rparr>],
                 filenameRules = [] \<rparr>,
      pdfMetrics = None, scannedThresholds = ex_thresholds \<rparr>"

definition ex_infiniteWeight :: ClassifyOptions where
  "ex_infiniteWeight = \<lparr> filename = ''memo.txt'', doc_text = ''shares shares shares shares shares'',
      isPdf = False,
      config = \<lparr> schedules =
                   [\<lparr> sid = A_Real_Estate, label = ''Schedule A - Real Estate'',
                       keywordTerms = [\<lparr> wterm = ''deed'', weight = PosInfinity \<rparr>], smallTerms = [] \<rparr>,
                    \<lparr> sid = B_Stocks_Bonds, label = ''Schedule B - Stocks & Bonds'',
                       keywordTerms = [], smallTerms = [\<lparr> wterm = ''shares'', weight = Finite 4 \<rparr>] \<rparr>],
                 filenameRules = [] \<rparr>,
      pdfMetrics = None, scannedThresholds = ex_thresholds \<rparr>"

definition ex_bigWeights :: ScheduleDefinition where
  "ex_bigWeights =
     \<lparr> sid = A_Real_Estate, label = ''Schedule A - Real Estate'',
       keywordTerms = [\<lparr> wterm = ''deed'', weight = Finite 9007199254740992 \<rparr>],
       smallTerms = [\<lparr> wterm = ''parcel'', weight = Finite 1 \<rparr>] \<rparr>"

text \<open>
  A run: a digest and an extractor that are functions of the bytes (the extractor fails on an
  empty file), two files with the same bytes, and a third, broken one. The pool states are
  those of a pool of size 2 that starts both twins before either extraction settles.
\<close>

definition ex_extract :: "nat list \<Rightarrow> string + PdfTextResult" where
  "ex_extract b =
     (if b = [] then Inl ''InvalidPDFException: Invalid PDF structure.''
      else Inr \<lparr> chars = int (length b), textItems = int (length b), pagesSampled = 1,
                 text_r = map char_of b, numPages = 1 \<rparr>)"

definition ex_env :: RunEnv where
  "ex_env = \<lparr> hashArrayBuffer = (\<lambda>b. Inr (showNat (sum_list b))),
              extractPdfText = ex_extract,
              compiledConfig = \<lparr> schedules = ex_schedules, filenameRules = [ex_deedRule] \<rparr>,
              scanThresholds = \<lparr> minChars = 5, minTextItems = 5 \<rparr>,
              reviewOverrides = (\<lambda>h. None),
              errorText = (\<lambda>e. ''TypeError: undefined is not iterable'') \<rparr>"

definition ex_bytes :: "nat list" where
  "ex_bytes = map of_char ''Deed, deed''"

definition ex_twins :: "SelectedFile list" where
  "ex_twins = [\<lparr> name = ''a.pdf'', relativePath = ''estate/a.pdf'', content = ex_bytes \<rparr>,
               \<lparr> name = ''a.pdf'', relativePath = ''estate/copy/a.pdf'', content = ex_bytes \<rparr>]"



definition ex_worker0 :: Pending where
  "ex_worker0 = AwaitingExtraction (ex_twins ! 0) 0 ''848'' ''848''"

definition ex_worker1 :: Pending where
  "ex_worker1 = AwaitingExtraction (ex_twins ! 1) 1 ''848'' ''848''"

definition ex_pool1 :: PoolState where
  "ex_pool1 = startNext ex_env ex_twins initialPoolState"

definition ex_pool2 :: PoolState where
  "ex_pool2 = startNext ex_env ex_twins ex_pool1"

definition ex_pool3 :: PoolState where
  "ex_pool3 = resumeWorker ex_env ex_worker0 ex_pool2"

definition ex_pool4 :: PoolState where
  "ex_pool4 = resumeWorker ex_env ex_worker1 ex_pool3"


definition ex_files :: "ProcessedFile list" where
  "ex_files =
     [newEntry \<lparr> name = ''deed.tar.gz'', relativePath = ''in/deed.tar.gz'', content = [1] \<rparr>
        ''0a1b2c3d4e5f'' ''0a1b2c3d4e'' assigned_f (Some A_Real_Estate) None ''filename_rule'' (Finite 18) [],
      newEntry \<lparr> name = ''deed.tar.gz'', relativePath = ''in/old/deed.tar.gz'', content = [2] \<rparr>
        ''1a1b2c3d4e5f'' ''1a1b2c3d4e'' assigned_f (Some A_Real_Estate) None ''filename_rule'' (Finite 18) [],
      newEntry \<lparr> name = ''deed.tar__dup1.gz'', relativePath = ''in/deed.tar__dup1.gz'', content = [3] \<rparr>
        ''2a1b2c3d4e5f'' ''2a1b2c3d4e'' assigned_f (Some A_Real_Estate) None ''filename_rule'' (Finite 18) [],
      newEntry \<lparr> name = ''deed.tar.gz'', relativePath = ''in/new/deed.tar.gz'', content = [4] \<rparr>
        ''3a1b2c3d4e5f'' ''3a1b2c3d4e'' review_f None (Some Unknown) ''low_confidence'' (Finite 0) []]"

definition ex_review :: "string \<Rightarrow> string \<Rightarrow> ProcessedFile" where
  "ex_review nm sample =
     (newEntry \<lparr> name = nm, relativePath = nm, content = [] \<rparr> ''h'' ''h'' review_f None (Some Unknown)
        ''low_confidence'' (Finite 0) []) \<lparr> textSample := Some sample \<rparr>"

definition ex_jointFiles :: "ProcessedFile list" where
  "ex_jointFiles =
     [ex_review ''a.pdf'' ''Joint venture'',
      ex_review ''b.pdf'' ''joint, JOINT'']"



definition ex_regexError :: "string \<Rightarrow> string option" where
  "ex_regexError p = (if p = ''('' then Some ''SyntaxError: Invalid regular expression: /(/: Unterminated group'' else None)"

definition ex_rawConfig :: "jsValue \<Rightarrow> jsValue \<Rightarrow> jsValue" where
  "ex_rawConfig kws w =
     JObject [(''schedules'',
                JArray [JObject [(''id'', JString ''A_Real_Estate''),
                                 (''label'', JString ''Schedule A - Real Estate''),
                                 (''keywords'', kws),
                                 (''smallTerms'', JArray [JObject [(''term'', JString ''parcel''), (''weight'', w)]])]]),
              (''filenameRules'',
                JArray [JObject [(''pattern'', JString ''deed''), (''schedule'', JString ''A_Real_Estate'')]])]"



section \<open>Properties of the numbers\<close>



















text \<open>
  What an operation returns: a sum is a double (it is on the grid), the rounded value of a
  number that is not negative is not negative, and the difference of two doubles is above 0
  exactly when the first is above the second, so that the comparator of the ranking orders
  by descending score.
\<close>

lemma overflowBound_pos: "0 < overflowBound"
  by (simp add: overflowBound_def)



lemma roundDouble_not_NaN: "roundDouble x \<noteq> NaN"
  by (auto simp: roundDouble_def Let_def)







lemma jsLe_total: "a \<noteq> NaN \<Longrightarrow> b \<noteq> NaN \<Longrightarrow> jsLe a b \<or> jsLe b a"
  by (cases a; cases b) (auto simp: jsLe_def)











section \<open>Properties of the classification engine\<close>

lemma map_of_objSet: "map_of (objSet kvs k v) = (map_of kvs)(k \<mapsto> v)"
  by (induction kvs k v rule: objSet.induct) auto

lemma keys_objSet:
  "map fst (objSet kvs k v) = (if k \<in> fst ` set kvs then map fst kvs else map fst kvs @ [k])"
  by (induction kvs k v rule: objSet.induct) auto

lemma distinct_objSet: "distinct (map fst kvs) \<Longrightarrow> distinct (map fst (objSet kvs k v))"
  by (simp add: keys_objSet)

lemma set_keys_objSet: "fst ` set (objSet kvs k v) = insert k (fst ` set kvs)"
  by (induction kvs k v rule: objSet.induct) auto

lemma fillFrom_keys_set: "fst ` set (fillFrom f acc sds) = fst ` set acc \<union> sid ` set sds"
  unfolding fillFrom_def
  by (induction sds arbitrary: acc) (auto simp: set_keys_objSet)

lemma fillFrom_distinct: "distinct (map fst acc) \<Longrightarrow> distinct (map fst (fillFrom f acc sds))"
  unfolding fillFrom_def
  by (induction sds arbitrary: acc) (auto simp: distinct_objSet)

lemma fillFrom_map_of:
  "map_of (fillFrom f acc sds) = map_of acc ++ map_of (rev (map (\<lambda>sd. (sid sd, f sd)) sds))"
proof (induction sds arbitrary: acc)
  case Nil
  then show ?case by (simp add: fillFrom_def)
next
  case (Cons sd sds)
  have "map_of (fillFrom f acc (sd # sds)) = map_of (fillFrom f (objSet acc (sid sd) (f sd)) sds)"
    by (simp add: fillFrom_def)
  also have "\<dots> = (map_of acc)(sid sd \<mapsto> f sd) ++ map_of (rev (map (\<lambda>sd. (sid sd, f sd)) sds))"
    by (simp only: Cons.IH map_of_objSet)
  also have "(map_of acc)(sid sd \<mapsto> f sd) = map_of acc ++ [sid sd \<mapsto> f sd]"
    by simp
  finally show ?case
    by (simp only: map_add_assoc rev.simps list.map map_of_append map_of.simps fst_conv snd_conv)
qed




lemma fillScores_fillFrom: "fillScores f sds = fillFrom f [] sds"
  by (simp add: fillScores_def fillFrom_def)

lemma fillScores_keys: "fst ` set (fillScores f sds) = sid ` set sds"
  by (simp add: fillScores_fillFrom fillFrom_keys_set)

lemma fillScores_distinct: "distinct (map fst (fillScores f sds))"
  by (simp add: fillScores_fillFrom fillFrom_distinct)


lemma fillScores_by_id:
  "map_of (fillScores (\<lambda>sd. g (sid sd)) sds) k = (if k \<in> sid ` set sds then Some (g k) else None)"
proof -
  have "map_of (rev (map (\<lambda>sd. (sid sd, g (sid sd))) sds)) k
          = (if k \<in> sid ` set sds then Some (g k) else None)"
    by (induction sds) (auto simp: map_add_def)
  then show ?thesis
    by (simp add: fillScores_fillFrom fillFrom_map_of)
qed




text \<open>
  Claim C1 as stated fails: the score vector has entries for the configured categories only.
  The file name \<open>bank_letter.txt\<close> matches a rule whose target \<open>C_Cash_Notes\<close> is not
  among the configured categories; the result is \<open>assigned\<close> to \<open>C_Cash_Notes\<close> with score
  18, and its score vector gives 0 to both configured categories and has no entry for
  \<open>C_Cash_Notes\<close>.
\<close>

theorem filename_rule_counterexample:
  "pattern (filenameRules (config ex_orphan) ! 0) (normalizeText (filename ex_orphan)) \<and>
   schedule (filenameRules (config ex_orphan) ! 0) = C_Cash_Notes \<and>
   map sid (schedules (config ex_orphan)) = [A_Real_Estate, B_Stocks_Bonds] \<and>
   classifyDocument ex_orphan =
     Inr \<lparr> decision = assigned, schedule_r = Some C_Cash_Notes, candidate = None,
           reason = ''filename_rule'', score = Finite 18,
           scores = [(A_Real_Estate, Finite 0), (B_Stocks_Bonds, Finite 0)] \<rparr>"
  by code_simp





text \<open>
  Claim C2. \<open>classifyDocument\<close> is claimed never to throw, and to return \<open>review\<close> with
  candidate \<open>Unknown\<close> when no category is configured. With no category, no filename rule and
  the text \<open>hello\<close>, the destructuring of \<open>sorted[0]\<close> throws a \<open>TypeError\<close>.
\<close>

theorem classify_throws_without_categories:
  "schedules (config ex_noCategories) = [] \<and> classifyDocument ex_noCategories = Inl TypeError"
  by code_simp


lemma applyFilenameRules_none:
  "applyFilenameRules fname rules = None \<longleftrightarrow> (\<forall>rule \<in> set rules. \<not> pattern rule fname)"
  by (induction rules) auto


text \<open>
  Claim C4 as stated fails: a PDF below the character threshold whose filename matches a rule is
  \<open>assigned\<close> by the rule, and a PDF of which no page was sampled is not checked for a
  missing text layer (its reason is \<open>no_text_or_filename_rule\<close>).
\<close>

theorem scanned_pdf_counterexample:
  "isPdf ex_ruleDoc \<and> pdfMetrics ex_ruleDoc = Some \<lparr> chars = 80, textItems = 12, pagesSampled = 1 \<rparr> \<and>
   (80 :: int) < minChars (scannedThresholds ex_ruleDoc) \<and>
   classifyDocument ex_ruleDoc =
     Inr \<lparr> decision = assigned, schedule_r = Some A_Real_Estate, candidate = None,
           reason = ''filename_rule'', score = Finite 18,
           scores = [(A_Real_Estate, Finite 18), (B_Stocks_Bonds, Finite 0)] \<rparr> \<and>
   isPdf ex_zeroPages \<and> pdfMetrics ex_zeroPages = Some \<lparr> chars = 0, textItems = 0, pagesSampled = 0 \<rparr> \<and>
   (0 :: int) < minChars (scannedThresholds ex_zeroPages) \<and>
   classifyDocument ex_zeroPages =
     Inr \<lparr> decision = review, schedule_r = None, candidate = Some Unknown,
           reason = ''no_text_or_filename_rule'', score = Finite 0,
           scores = [(A_Real_Estate, Finite 0), (B_Stocks_Bonds, Finite 0)] \<rparr>"
  by code_simp


text \<open>
  Claim C4, amended. For a PDF whose filename matches no rule, whose metrics come from at least
  one sampled page and whose sampled character count is below the configured minimum,
  \<open>classifyDocument\<close> returns, whatever the document text is, decision \<open>review\<close>, candidate
  \<open>Unknown\<close>, score 0, a score vector with 0 for every configured category, and a reason that
  starts with \<open>likely_scanned_pdf\<close> and embeds the observed chars, textItems and pages sampled.
\<close>

theorem scanned_pdf_precedence:
  assumes pdf: "isPdf options"
    and metrics: "pdfMetrics options = Some m"
    and sampled: "pagesSampled m > 0"
    and low: "chars m < minChars (scannedThresholds options)"
    and norule: "\<forall>rule \<in> set (filenameRules (config options)).
                   \<not> pattern rule (normalizeText (filename options))"
  shows "\<exists>r. (\<forall>t. classifyDocument (options \<lparr> doc_text := t \<rparr>) = Inr r) \<and>
           decision r = review \<and> schedule_r r = None \<and> candidate r = Some Unknown \<and>
           score r = Finite 0 \<and>
           distinct (map fst (scores r)) \<and>
           map_of (scores r) =
             (\<lambda>k. if k \<in> sid ` set (schedules (config options)) then Some (Finite 0) else None) \<and>
           take 18 (reason r) = ''likely_scanned_pdf'' \<and>
           reason r = ''likely_scanned_pdf: low_text_layer (chars='' @ showInt (chars m) @
                      '', textItems='' @ showInt (textItems m) @
                      '', sampled='' @ showInt (pagesSampled m) @ '')''"
proof -
  let ?r = "\<lparr> decision = review, schedule_r = None, candidate = Some Unknown,
               reason = scannedReason m, score = Finite 0,
               scores = fillScores (\<lambda>sd. Finite 0) (schedules (config options)) \<rparr>"
  from norule have n: "applyFilenameRules (normalizeText (filename options)) (filenameRules (config options)) = None"
    by (simp add: applyFilenameRules_none)
  have "classifyDocument (options \<lparr> doc_text := t \<rparr>) = Inr ?r" for t
    using n pdf metrics sampled low by (simp add: classifyDocument_def)
  moreover have "map_of (scores ?r) =
      (\<lambda>k. if k \<in> sid ` set (schedules (config options)) then Some (Finite 0) else None)"
    using fillScores_by_id [of "\<lambda>k. Finite 0"] by (simp add: fun_eq_iff)
  ultimately show ?thesis
    by (intro exI [of _ ?r]) (simp add: fillScores_distinct scannedReason_def)
qed


theorem scanned_pdf_precedence_witness:
  "isPdf ex_scanDoc \<and>
   (\<exists>r. (\<forall>t. classifyDocument (ex_scanDoc \<lparr> doc_text := t \<rparr>) = Inr r) \<and>
        decision r = review \<and> candidate r = Some Unknown \<and>
        reason r = ''likely_scanned_pdf: low_text_layer (chars=80, textItems=12, sampled=1)'')"
proof -
  let ?m = "\<lparr> chars = 80, textItems = 12, pagesSampled = 1 \<rparr>"
  have h1: "isPdf ex_scanDoc" by (simp add: ex_scanDoc_def ex_ruleDoc_def)
  have h2: "pdfMetrics ex_scanDoc = Some ?m" by (simp add: ex_scanDoc_def ex_ruleDoc_def)
  have h3: "pagesSampled ?m > 0" by simp
  have h4: "chars ?m < minChars (scannedThresholds ex_scanDoc)"
    by (simp add: ex_scanDoc_def ex_ruleDoc_def ex_thresholds_def)
  have h5: "\<forall>rule \<in> set (filenameRules (config ex_scanDoc)).
              \<not> pattern rule (normalizeText (filename ex_scanDoc))"
    by code_simp
  have s: "showInt 80 = ''80''" "showInt 12 = ''12''" "showInt 1 = ''1''" by code_simp+
  from scanned_pdf_precedence [OF h1 h2 h3 h4 h5] h1 show ?thesis
    by (auto simp: s)
qed

text \<open>
  Claim C10. A result returned by \<open>classifyDocument\<close> has the shape of its decision:
  \<open>assigned\<close> comes with a schedule and no candidate, \<open>review\<close> with a candidate and no
  schedule.
\<close>

theorem result_shape:
  assumes "classifyDocument options = Inr r"
  shows "(decision r = assigned \<longrightarrow> schedule_r r \<noteq> None \<and> candidate r = None) \<and>
         (decision r = review \<longrightarrow> candidate r \<noteq> None \<and> schedule_r r = None)"
  using assms
  by (auto simp: classifyDocument_def Let_def split: option.splits list.splits if_splits prod.splits)


theorem result_shape_witness:
  "classifyDocument ex_scanDoc = Inr \<lparr> decision = review, schedule_r = None, candidate = Some Unknown,
        reason = ''likely_scanned_pdf: low_text_layer (chars=80, textItems=12, sampled=1)'',
        score = Finite 0, scores = [(A_Real_Estate, Finite 0), (B_Stocks_Bonds, Finite 0)] \<rparr> \<and>
   candidate \<lparr> decision = review, schedule_r = None, candidate = Some Unknown,
        reason = ''likely_scanned_pdf: low_text_layer (chars=80, textItems=12, sampled=1)'',
        score = Finite 0, scores = [(A_Real_Estate, Finite 0), (B_Stocks_Bonds, Finite 0)] \<rparr> \<noteq> None"
proof -
  have e: "classifyDocument ex_scanDoc = Inr \<lparr> decision = review, schedule_r = None, candidate = Some Unknown,
        reason = ''likely_scanned_pdf: low_text_layer (chars=80, textItems=12, sampled=1)'',
        score = Finite 0, scores = [(A_Real_Estate, Finite 0), (B_Stocks_Bonds, Finite 0)] \<rparr>"
    by code_simp
  from result_shape [OF e] e show ?thesis by simp
qed












text \<open>
  The ranking. It is a permutation of the entries; when no score is \<open>NaN\<close> it is descending,
  and entries with the same score keep their order.
\<close>

lemma mset_insertEntry: "mset (insertEntry a bs) = add_mset a (mset bs)"
  by (induction bs) auto

lemma mset_sortByScoreDesc: "mset (sortByScoreDesc es) = mset es"
  unfolding sortByScoreDesc_def by (induction es) (auto simp: mset_insertEntry)










text \<open>
  Claim C3 as stated fails in three ways. With a category id that is declared twice, the
  second declaration overwrites the score of the first: for the text \<open>deed deed\<close> the first
  declaration of \<open>A_Real_Estate\<close> scores 20 and the second 0, and the result is \<open>review\<close> with
  score 0. With an infinite weight on a term that does not occur, the score of the category
  is \<open>0 * Infinity\<close>, that is \<open>NaN\<close>; the comparator does not order it, the category stays on
  top, ahead of one that scores 20, and is \<open>assigned\<close> with score \<open>NaN\<close>. And the sum is one of
  doubles: a term of weight \<open>2 ^ 53\<close> and one of weight 1 that occur once each score
  \<open>2 ^ 53\<close>, and not \<open>2 ^ 53 + 1\<close>.
\<close>

theorem keyword_scoring_counterexample:
  "categoryEntries (doc_text ex_repeatedId) (schedules (config ex_repeatedId)) =
     [(A_Real_Estate, Finite 20), (A_Real_Estate, Finite 0)] \<and>
   classifyDocument ex_repeatedId =
     Inr \<lparr> decision = review, schedule_r = None, candidate = Some (Category A_Real_Estate),
           reason = ''low_confidence'', score = Finite 0, scores = [(A_Real_Estate, Finite 0)] \<rparr> \<and>
   categoryEntries (doc_text ex_infiniteWeight) (schedules (config ex_infiniteWeight)) =
     [(A_Real_Estate, NaN), (B_Stocks_Bonds, Finite 20)] \<and>
   classifyDocument ex_infiniteWeight =
     Inr \<lparr> decision = assigned, schedule_r = Some A_Real_Estate, candidate = None,
           reason = ''keyword_score'', score = NaN,
           scores = [(A_Real_Estate, NaN), (B_Stocks_Bonds, Finite 20)] \<rparr> \<and>
   countTermOccurrences ''deed of parcel'' ''deed'' = 1 \<and>
   countTermOccurrences ''deed of parcel'' ''parcel'' = 1 \<and>
   scoreSchedule ''deed of parcel'' ex_bigWeights = Finite 9007199254740992 \<and>
   exactScore ''deed of parcel'' ex_bigWeights = 9007199254740993"
  by code_simp




text \<open>
  \<open>classifyDocument\<close> throws in exactly one situation: the keyword-scoring step is reached
  with no configured category.
\<close>

lemma fillScores_empty_iff: "fillScores f sds = [] \<longleftrightarrow> sds = []"
  using fillScores_keys [of f sds] by (metis image_is_empty set_empty)

lemma sortByScoreDesc_empty_iff: "sortByScoreDesc es = [] \<longleftrightarrow> es = []"
  using mset_sortByScoreDesc [of es] by (metis mset_zero_iff)

lemma classifyDocument_throws_iff:
  "classifyDocument options = Inl e \<longleftrightarrow>
     applyFilenameRules (normalizeText (filename options)) (filenameRules (config options)) = None \<and>
     \<not> (isPdf options \<and> (\<exists>m. pdfMetrics options = Some m \<and> pagesSampled m > 0 \<and>
           (chars m < minChars (scannedThresholds options) \<or>
            textItems m < minTextItems (scannedThresholds options)))) \<and>
     trim (doc_text options) \<noteq> [] \<and>
     schedules (config options) = []"
proof (cases "sortByScoreDesc (fillScores (scoreSchedule (doc_text options)) (schedules (config options)))")
  case Nil
  then have "schedules (config options) = []"
    by (simp add: sortByScoreDesc_empty_iff fillScores_empty_iff)
  with Nil show ?thesis
    by (cases e) (auto simp: classifyDocument_def Let_def split: option.splits)
next
  case (Cons a rest)
  then have "schedules (config options) \<noteq> []"
    using sortByScoreDesc_empty_iff fillScores_empty_iff by (metis list.distinct(1))
  with Cons show ?thesis
    by (auto simp: classifyDocument_def Let_def split: option.splits prod.splits)
qed


section \<open>Properties of the processing pipeline\<close>















text \<open>
  One worker at a time: the first file with a digest that has not been seen is recorded as
  first-seen (unless its classification throws), and every later file with that digest is
  recorded as a duplicate that copies the first-seen entry's schedule, candidate, score and
  score vector.
\<close>

lemma processItem_duplicate:
  assumes "hashArrayBuffer env (content item) = Inr h" "map_of (seenHashes st) h = Some first"
  shows "processed (processItem env item index st) =
           processed st @ [newEntry item h (getHashPrefix h) duplicate_f (schedule_f first)
                             (candidate_f first) ''sha256_duplicate'' (score_f first) (scores_f first)]"
    and "seenHashes (processItem env item index st) = seenHashes st"
  using assms by (simp_all add: processItem_def workerStart_def Let_def pushEntry_def)

lemma runSequential_duplicates:
  assumes "\<forall>item \<in> set its. hashArrayBuffer env (content item) = Inr h"
    and "map_of (seenHashes st) h = Some first"
  shows "processed (runSequential env its index st) =
           processed st @ map (\<lambda>item. newEntry item h (getHashPrefix h) duplicate_f (schedule_f first)
                             (candidate_f first) ''sha256_duplicate'' (score_f first) (scores_f first)) its"
  using assms
proof (induction its arbitrary: index st)
  case Nil
  then show ?case by simp
next
  case (Cons item its)
  from Cons.prems have h: "hashArrayBuffer env (content item) = Inr h" by simp
  note step = processItem_duplicate [OF h Cons.prems(2), of index]
  from Cons.prems(2) step(2) have seen: "map_of (seenHashes (processItem env item index st)) h = Some first"
    by simp
  from Cons.prems(1) have rest: "\<forall>item \<in> set its. hashArrayBuffer env (content item) = Inr h" by simp
  show ?case
    by (simp add: Cons.IH [OF rest seen] step(1))
qed

lemma processItem_first_seen:
  assumes "hashArrayBuffer env (content item) = Inr h" "map_of (seenHashes st) h = None"
  shows "(\<exists>first. processed (processItem env item index st) = processed st @ [first] \<and>
            hash first = h \<and> decision_f first \<noteq> duplicate_f \<and>
            map_of (seenHashes (processItem env item index st)) h = Some first) \<or>
         (\<exists>err. processItem env item index st =
            processingError env item index err
              (st \<lparr> sourcePathsMap :=
                        objSet (sourcePathsMap st) (getHashPrefix h)
                          ((case map_of (sourcePathsMap st) (getHashPrefix h) of None \<Rightarrow> [] | Some ps \<Rightarrow> ps)
                             @ [relativePath item]) \<rparr>))"
proof -
  have nd: "fileDecision d \<noteq> duplicate_f" for d by (cases d) auto
  show ?thesis
    using assms
    by (auto simp: processItem_def workerStart_def Let_def pushFirstSeen_def classifyAndRecord_def
                   newEntry_def map_of_objSet nd
             split: option.splits sum.splits if_splits)
qed


lemma ex_pool1_value:
  "ex_pool1 = \<lparr> currentIndex = 1, suspended = [ex_worker0],
                shared = \<lparr> processed = [], seenHashes = [], sourcePathsMap = [(''848'', [''estate/a.pdf''])] \<rparr> \<rparr>"
  by code_simp

lemma ex_pool2_value:
  "ex_pool2 = \<lparr> currentIndex = 2, suspended = [ex_worker0, ex_worker1],
                shared = \<lparr> processed = [], seenHashes = [],
                           sourcePathsMap = [(''848'', [''estate/a.pdf'', ''estate/copy/a.pdf''])] \<rparr> \<rparr>"
  by code_simp

text \<open>
  Claim C6. Two PDFs with the same bytes, in a pool of size 2: both workers pass the
  \<open>seenHashes.has(hash)\<close> test before either reaches \<open>seenHashes.set\<close>, which comes after
  \<open>await extractPdfText\<close>. Both are recorded as first-seen and neither as \<open>duplicate\<close>; the
  same two files processed one after the other give one first-seen entry and one duplicate.
\<close>

theorem concurrent_twins_both_first_seen:
  "content (ex_twins ! 0) = content (ex_twins ! 1) \<and>
   poolStep ex_env ex_twins 2 initialPoolState ex_pool1 \<and>
   poolStep ex_env ex_twins 2 ex_pool1 ex_pool2 \<and>
   poolStep ex_env ex_twins 2 ex_pool2 ex_pool3 \<and>
   poolStep ex_env ex_twins 2 ex_pool3 ex_pool4 \<and>
   currentIndex ex_pool4 = length ex_twins \<and> suspended ex_pool4 = [] \<and>
   map (\<lambda>e. (relativePath e, hash e, decision_f e, reason_f e)) (processed (shared ex_pool4)) =
     [(''estate/a.pdf'', ''848'', assigned_f, ''keyword_score''),
      (''estate/copy/a.pdf'', ''848'', assigned_f, ''keyword_score'')] \<and>
   map (\<lambda>e. (relativePath e, hash e, decision_f e, reason_f e))
       (processed (runSequential ex_env ex_twins 0 initialRunState)) =
     [(''estate/a.pdf'', ''848'', assigned_f, ''keyword_score''),
      (''estate/copy/a.pdf'', ''848'', duplicate_f, ''sha256_duplicate'')]"
proof (intro conjI)
  show "content (ex_twins ! 0) = content (ex_twins ! 1)"
    by (simp add: ex_twins_def)
  show "poolStep ex_env ex_twins 2 initialPoolState ex_pool1"
    unfolding ex_pool1_def by (rule poolStep.start) (simp_all add: initialPoolState_def ex_twins_def)
  show "poolStep ex_env ex_twins 2 ex_pool1 ex_pool2"
    unfolding ex_pool2_def by (rule poolStep.start) (simp_all add: ex_pool1_value ex_twins_def)
  show "poolStep ex_env ex_twins 2 ex_pool2 ex_pool3"
    unfolding ex_pool3_def by (rule poolStep.resume) (simp add: ex_pool2_value)
  have s3: "suspended ex_pool3 = [ex_worker1]"
    by (simp add: ex_pool3_def resumeWorker_def ex_pool2_value ex_worker0_def ex_worker1_def)
  show "poolStep ex_env ex_twins 2 ex_pool3 ex_pool4"
    unfolding ex_pool4_def by (rule poolStep.resume) (simp add: s3)
  show "currentIndex ex_pool4 = length ex_twins"
    by (simp add: ex_pool4_def ex_pool3_def resumeWorker_def ex_pool2_value ex_twins_def)
  show "suspended ex_pool4 = []"
    by (simp add: ex_pool4_def resumeWorker_def s3)
  have "shared ex_pool4 =
          workerResume ex_env ex_worker1 (workerResume ex_env ex_worker0
            \<lparr> processed = [], seenHashes = [],
              sourcePathsMap = [(''848'', [''estate/a.pdf'', ''estate/copy/a.pdf''])] \<rparr>)"
    by (simp add: ex_pool4_def ex_pool3_def resumeWorker_def ex_pool2_value)
  then show "map (\<lambda>e. (relativePath e, hash e, decision_f e, reason_f e)) (processed (shared ex_pool4)) =
     [(''estate/a.pdf'', ''848'', assigned_f, ''keyword_score''),
      (''estate/copy/a.pdf'', ''848'', assigned_f, ''keyword_score'')]"
    by code_simp
  show "map (\<lambda>e. (relativePath e, hash e, decision_f e, reason_f e))
       (processed (runSequential ex_env ex_twins 0 initialRunState)) =
     [(''estate/a.pdf'', ''848'', assigned_f, ''keyword_score''),
      (''estate/copy/a.pdf'', ''848'', duplicate_f, ''sha256_duplicate'')]"
    by code_simp
qed


section \<open>Properties of the output path assigner\<close>

lemma dupLoop_least:
  "\<exists>N \<ge> counter. dupLoop nm usedNames counter = dupName nm N \<and> dupName nm N \<notin> set usedNames \<and>
       (\<forall>k. counter \<le> k \<and> k < N \<longrightarrow> dupName nm k \<in> set usedNames)"
proof (induction nm usedNames counter rule: dupLoop.induct)
  case (1 nm usedNames counter)
  show ?case
  proof (cases "dupName nm counter \<in> set usedNames")
    case True
    from "1.IH" [OF True] obtain N where N: "counter + 1 \<le> N"
      "dupLoop nm usedNames (counter + 1) = dupName nm N" "dupName nm N \<notin> set usedNames"
      "\<forall>k. counter + 1 \<le> k \<and> k < N \<longrightarrow> dupName nm k \<in> set usedNames"
      by blast
    have "\<forall>k. counter \<le> k \<and> k < N \<longrightarrow> dupName nm k \<in> set usedNames"
    proof (intro allI impI)
      fix k assume k: "counter \<le> k \<and> k < N"
      show "dupName nm k \<in> set usedNames"
      proof (cases "k = counter")
        case True
        with \<open>dupName nm counter \<in> set usedNames\<close> show ?thesis by simp
      next
        case False
        with k N(4) show ?thesis by simp
      qed
    qed
    with N True show ?thesis
      by (intro exI [of _ N]) (simp add: dupLoop.simps [of nm usedNames counter])
  next
    case False
    then show ?thesis
      by (intro exI [of _ counter]) (auto simp: dupLoop.simps [of nm usedNames counter])
  qed
qed

lemma splitOn_nonempty: "splitOn c s \<noteq> []"
  by (induction s) (auto split: list.splits)

lemma splitOn_last_free: "c \<notin> set (last (splitOn c s))"
proof (induction s)
  case Nil
  then show ?case by simp
next
  case (Cons x xs)
  then show ?case
    using splitOn_nonempty [of c xs]
    by (cases "splitOn c xs") (auto split: list.splits)
qed

lemma lastIndexOf_le: "lastIndexOf c s = Some i \<Longrightarrow> i < length s"
  by (induction s arbitrary: i) (auto split: option.splits if_splits)

lemma digitChar_not_slash: "d < 10 \<Longrightarrow> digitChar d \<noteq> CHR ''/''"
proof
  assume d: "d < 10" and e: "digitChar d = CHR ''/''"
  from e have "(of_char (char_of (48 + d)) :: nat) = of_char CHR ''/''"
    by (simp add: digitChar_def)
  then have "(48 + d) mod 256 = 47" by simp
  with d show False by simp
qed

lemma showNat_no_slash: "CHR ''/'' \<notin> set (showNat n)"
proof (induction n rule: showNat.induct)
  case (1 n)
  show ?case
  proof (cases "n < 10")
    case True
    then show ?thesis
      using digitChar_not_slash [of n] by (auto simp: showNat.simps [of n])
  next
    case False
    with "1.IH" show ?thesis
      using digitChar_not_slash [of "n mod 10"] by (auto simp: showNat.simps [of n])
  qed
qed

lemma dupName_no_slash: "CHR ''/'' \<notin> set nm \<Longrightarrow> CHR ''/'' \<notin> set (dupName nm k)"
  by (auto simp: dupName_def Let_def showNat_no_slash split: option.splits
           dest: in_set_takeD in_set_dropD)

lemma ensureUniqueFilename_fresh:
  "fst (ensureUniqueFilename nm usedNames) \<notin> set usedNames"
  using dupLoop_least [of 1 nm usedNames]
  by (auto simp: ensureUniqueFilename_def Let_def)

lemma ensureUniqueFilename_used:
  "snd (ensureUniqueFilename nm usedNames) = usedNames @ [fst (ensureUniqueFilename nm usedNames)]"
  by (simp add: ensureUniqueFilename_def Let_def)

lemma ensureUniqueFilename_no_slash:
  "CHR ''/'' \<notin> set nm \<Longrightarrow> CHR ''/'' \<notin> set (fst (ensureUniqueFilename nm usedNames))"
  using dupLoop_least [of 1 nm usedNames]
  by (auto simp: ensureUniqueFilename_def Let_def dupName_no_slash)


lemma append_sep_inj:
  "c \<notin> set ys \<Longrightarrow> c \<notin> set ys' \<Longrightarrow> xs @ c # ys = xs' @ c # ys' \<Longrightarrow> xs = xs' \<and> ys = ys'"
proof (induction xs arbitrary: xs')
  case Nil
  then show ?case by (cases xs') auto
next
  case (Cons x xs)
  then show ?case by (cases xs') auto
qed

lemma pathJoin_inj:
  assumes "CHR ''/'' \<notin> set u" "CHR ''/'' \<notin> set u'" "pathJoin d u = pathJoin d' u'"
  shows "d = d' \<and> u = u'"
proof (cases "d = []")
  case True
  note d = this
  show ?thesis
  proof (cases "d' = []")
    case True
    with d assms(3) show ?thesis by (simp add: pathJoin_def)
  next
    case False
    with d assms(3) have "u = d' @ CHR ''/'' # u'" by (simp add: pathJoin_def)
    with assms(1) show ?thesis by auto
  qed
next
  case False
  note d = this
  show ?thesis
  proof (cases "d' = []")
    case True
    with d assms(3) have "u' = d @ CHR ''/'' # u" by (simp add: pathJoin_def)
    with assms(2) show ?thesis by auto
  next
    case False
    with d assms(3) have "d @ CHR ''/'' # u = d' @ CHR ''/'' # u'" by (simp add: pathJoin_def)
    with assms(1,2) show ?thesis by (intro append_sep_inj)
  qed
qed

lemma assignLoop_step:
  "assignLoop usedNamesByFolder (file # files) =
     (let dir = joinWith ''/'' (butlast (splitOn CHR ''/'' (buildBaseOutputPath file)));
          r = ensureUniqueFilename (last (splitOn CHR ''/'' (buildBaseOutputPath file))) (usedIn usedNamesByFolder dir)
      in file \<lparr> outputPath := pathJoin dir (fst r) \<rparr>
           # assignLoop (objSet usedNamesByFolder dir (snd r)) files)"
  by (simp add: Let_def pathJoin_def usedIn_def split: prod.splits)

lemma assignLoop_invariant:
  "distinct (map outputPath (assignLoop usedNamesByFolder files)) \<and>
   (\<forall>r \<in> set (assignLoop usedNamesByFolder files).
      \<exists>d u. outputPath r = pathJoin d u \<and> CHR ''/'' \<notin> set u \<and> u \<notin> set (usedIn usedNamesByFolder d))"
proof (induction files arbitrary: usedNamesByFolder)
  case Nil
  then show ?case by simp
next
  case (Cons f files)
  let ?fname = "last (splitOn CHR ''/'' (buildBaseOutputPath f))"
  let ?dir = "joinWith ''/'' (butlast (splitOn CHR ''/'' (buildBaseOutputPath f)))"
  let ?r = "ensureUniqueFilename ?fname (usedIn usedNamesByFolder ?dir)"
  let ?used' = "objSet usedNamesByFolder ?dir (snd ?r)"
  let ?rest = "assignLoop ?used' files"
  have step: "assignLoop usedNamesByFolder (f # files) = f \<lparr> outputPath := pathJoin ?dir (fst ?r) \<rparr> # ?rest"
    by (simp only: assignLoop_step Let_def)
  have ns: "CHR ''/'' \<notin> set (fst ?r)"
    by (rule ensureUniqueFilename_no_slash) (rule splitOn_last_free)
  have fresh: "fst ?r \<notin> set (usedIn usedNamesByFolder ?dir)"
    by (rule ensureUniqueFilename_fresh)
  have used_dir: "usedIn ?used' ?dir = usedIn usedNamesByFolder ?dir @ [fst ?r]"
    by (simp add: usedIn_def map_of_objSet ensureUniqueFilename_used)
  have used_other: "usedIn ?used' d = usedIn usedNamesByFolder d" if "d \<noteq> ?dir" for d
    using that by (simp add: usedIn_def map_of_objSet)
  from Cons.IH [of ?used'] have
    dist: "distinct (map outputPath ?rest)" and
    rest: "\<forall>r \<in> set ?rest. \<exists>d u. outputPath r = pathJoin d u \<and> CHR ''/'' \<notin> set u \<and> u \<notin> set (usedIn ?used' d)"
    by blast+
  have notin: "pathJoin ?dir (fst ?r) \<notin> set (map outputPath ?rest)"
  proof
    assume "pathJoin ?dir (fst ?r) \<in> set (map outputPath ?rest)"
    then obtain r where r: "r \<in> set ?rest" "outputPath r = pathJoin ?dir (fst ?r)" by auto
    from rest r(1) obtain d u where du: "outputPath r = pathJoin d u" "CHR ''/'' \<notin> set u"
      "u \<notin> set (usedIn ?used' d)" by blast
    from du(1) r(2) have "pathJoin d u = pathJoin ?dir (fst ?r)" by simp
    from pathJoin_inj [OF du(2) ns this] have "d = ?dir" "u = fst ?r" by simp_all
    with du(3) used_dir show False by simp
  qed
  have rest': "\<forall>r \<in> set ?rest. \<exists>d u. outputPath r = pathJoin d u \<and> CHR ''/'' \<notin> set u \<and>
                 u \<notin> set (usedIn usedNamesByFolder d)"
  proof
    fix r assume "r \<in> set ?rest"
    with rest obtain d u where du: "outputPath r = pathJoin d u" "CHR ''/'' \<notin> set u"
      "u \<notin> set (usedIn ?used' d)" by blast
    have "u \<notin> set (usedIn usedNamesByFolder d)"
    proof (cases "d = ?dir")
      case True
      with du(3) used_dir show ?thesis by simp
    next
      case False
      with du(3) used_other show ?thesis by simp
    qed
    with du show "\<exists>d u. outputPath r = pathJoin d u \<and> CHR ''/'' \<notin> set u \<and>
                 u \<notin> set (usedIn usedNamesByFolder d)" by blast
  qed
  have first: "\<exists>d u. outputPath (f \<lparr> outputPath := pathJoin ?dir (fst ?r) \<rparr>) = pathJoin d u \<and>
                 CHR ''/'' \<notin> set u \<and> u \<notin> set (usedIn usedNamesByFolder d)"
    using ns fresh by (intro exI [of _ ?dir] exI [of _ "fst ?r"]) simp
  show ?case
    unfolding step using dist notin rest' first by simp
qed


lemma lastIndexOf_split:
  "(lastIndexOf c s = None \<longrightarrow> c \<notin> set s) \<and>
   (\<forall>i. lastIndexOf c s = Some i \<longrightarrow> (\<exists>rest. drop i s = c # rest \<and> c \<notin> set rest))"
proof (induction s)
  case Nil
  then show ?case by simp
next
  case (Cons x xs)
  show ?case
  proof (cases "lastIndexOf c xs")
    case None
    with Cons show ?thesis by auto
  next
    case (Some j)
    with Cons show ?thesis by auto
  qed
qed

lemma dupName_shape:
  "\<exists>base ext. nm = base @ ext \<and> dupName nm N = base @ ''__dup'' @ showNat N @ ext \<and>
      (if CHR ''.'' \<in> set nm then \<exists>rest. ext = CHR ''.'' # rest \<and> CHR ''.'' \<notin> set rest else ext = [])"
proof (cases "lastIndexOf CHR ''.'' nm")
  case None
  with lastIndexOf_split [of "CHR ''.''" nm] have c: "CHR ''.'' \<notin> set nm" by simp
  have "nm = nm @ [] \<and> dupName nm N = nm @ ''__dup'' @ showNat N @ [] \<and>
      (if CHR ''.'' \<in> set nm then \<exists>rest. [] = CHR ''.'' # rest \<and> CHR ''.'' \<notin> set rest else [] = ([] :: string))"
    using None c by (simp add: dupName_def)
  then show ?thesis by blast
next
  case (Some i)
  with lastIndexOf_split [of "CHR ''.''" nm] obtain rest where
    r: "drop i nm = CHR ''.'' # rest" "CHR ''.'' \<notin> set rest" by blast
  then have c: "CHR ''.'' \<in> set nm" by (metis in_set_dropD list.set_intros(1))
  have "nm = take i nm @ drop i nm \<and> dupName nm N = take i nm @ ''__dup'' @ showNat N @ drop i nm \<and>
      (if CHR ''.'' \<in> set nm then \<exists>rest. drop i nm = CHR ''.'' # rest \<and> CHR ''.'' \<notin> set rest
       else drop i nm = [])"
    using Some r c append_take_drop_id [of i nm] by (simp add: dupName_def del: append_take_drop_id)
  then show ?thesis by blast
qed

lemma ensureUniqueFilename_rule:
  "(nm \<notin> set usedNames \<longrightarrow> ensureUniqueFilename nm usedNames = (nm, usedNames @ [nm])) \<and>
   (nm \<in> set usedNames \<longrightarrow>
      (\<exists>N \<ge> 1. ensureUniqueFilename nm usedNames = (dupName nm N, usedNames @ [dupName nm N]) \<and>
         dupName nm N \<notin> set usedNames \<and>
         (\<forall>k. 1 \<le> k \<and> k < N \<longrightarrow> dupName nm k \<in> set usedNames)))"
  using dupLoop_least [of 1 nm usedNames]
  by (auto simp: ensureUniqueFilename_def Let_def)

lemma assignLoop_names:
  "length (assignLoop usedNamesByFolder files) = length files \<and>
   (\<forall>i < length files. \<exists>u. outputPath (assignLoop usedNamesByFolder files ! i) = pathJoin (folderOf (files ! i)) u \<and>
        (u = fileNameOf (files ! i) \<or> (\<exists>N \<ge> 1. u = dupName (fileNameOf (files ! i)) N)))"
proof (induction files arbitrary: usedNamesByFolder)
  case Nil
  then show ?case by simp
next
  case (Cons f files)
  let ?r = "ensureUniqueFilename (fileNameOf f) (usedIn usedNamesByFolder (folderOf f))"
  let ?used' = "objSet usedNamesByFolder (folderOf f) (snd ?r)"
  have step: "assignLoop usedNamesByFolder (f # files) = f \<lparr> outputPath := pathJoin (folderOf f) (fst ?r) \<rparr> # assignLoop ?used' files"
    by (simp only: assignLoop_step Let_def folderOf_def fileNameOf_def)
  have u: "fst ?r = fileNameOf f \<or> (\<exists>N \<ge> 1. fst ?r = dupName (fileNameOf f) N)"
    using ensureUniqueFilename_rule [of "fileNameOf f" "usedIn usedNamesByFolder (folderOf f)"]
    by (cases "fileNameOf f \<in> set (usedIn usedNamesByFolder (folderOf f))") auto
  show ?case
  proof (intro conjI allI impI)
    show "length (assignLoop usedNamesByFolder (f # files)) = length (f # files)"
      using Cons.IH [of ?used'] by (simp add: step del: assignLoop.simps)
  next
    fix i assume i: "i < length (f # files)"
    show "\<exists>u. outputPath (assignLoop usedNamesByFolder (f # files) ! i) = pathJoin (folderOf ((f # files) ! i)) u \<and>
        (u = fileNameOf ((f # files) ! i) \<or> (\<exists>N \<ge> 1. u = dupName (fileNameOf ((f # files) ! i)) N))"
    proof (cases i)
      case 0
      with u show ?thesis by (intro exI [of _ "fst ?r"]) (simp add: step del: assignLoop.simps)
    next
      case (Suc j)
      with i Cons.IH [of ?used'] show ?thesis by (simp add: step del: assignLoop.simps)
    qed
  qed
qed


text \<open>
  Claim C7. After a pass of \<open>assignOutputPaths\<close> over any list of processed files the output
  paths are pairwise distinct. Every file keeps its folder, with its own name or that name with
  a \<open>__dup<N>\<close> suffix. A name that is not yet used in the folder is taken as it is; a name that
  is used becomes \<open>dupName name N\<close>, where \<open>N\<close> is the first number from 1 on whose candidate is
  free; the suffix \<open>__dup<N>\<close> is inserted before the extension, the part of the name from its
  last dot.
\<close>

theorem output_paths_unique:
  "distinct (map outputPath (assignOutputPaths files)) \<and>
   length (assignOutputPaths files) = length files \<and>
   (\<forall>i < length files. \<exists>u. outputPath (assignOutputPaths files ! i) = pathJoin (folderOf (files ! i)) u \<and>
        (u = fileNameOf (files ! i) \<or> (\<exists>N \<ge> 1. u = dupName (fileNameOf (files ! i)) N))) \<and>
   (\<forall>nm usedNames.
      (nm \<notin> set usedNames \<longrightarrow> ensureUniqueFilename nm usedNames = (nm, usedNames @ [nm])) \<and>
      (nm \<in> set usedNames \<longrightarrow>
         (\<exists>N \<ge> 1. ensureUniqueFilename nm usedNames = (dupName nm N, usedNames @ [dupName nm N]) \<and>
            dupName nm N \<notin> set usedNames \<and>
            (\<forall>k. 1 \<le> k \<and> k < N \<longrightarrow> dupName nm k \<in> set usedNames)))) \<and>
   (\<forall>nm N. \<exists>base ext. nm = base @ ext \<and> dupName nm N = base @ ''__dup'' @ showNat N @ ext \<and>
      (if CHR ''.'' \<in> set nm then \<exists>rest. ext = CHR ''.'' # rest \<and> CHR ''.'' \<notin> set rest else ext = []))"
  using assignLoop_invariant [of "[]" files] assignLoop_names [of "[]" files]
        ensureUniqueFilename_rule dupName_shape
  unfolding assignOutputPaths_def by blast


theorem output_paths_unique_witness:
  "map outputPath (assignOutputPaths ex_files) =
     [''706/A_Real_Estate/deed.tar.gz'', ''706/A_Real_Estate/deed.tar__dup1.gz'',
      ''706/A_Real_Estate/deed.tar__dup1__dup1.gz'', ''706/ReviewNeeded/Unknown/deed.tar.gz''] \<and>
   distinct (map outputPath (assignOutputPaths ex_files)) \<and>
   ''deed.tar.gz'' \<in> set [''deed.tar.gz'', ''deed.tar__dup1.gz''] \<and>
   fst (ensureUniqueFilename ''deed.tar.gz'' [''deed.tar.gz'', ''deed.tar__dup1.gz'']) = ''deed.tar__dup2.gz'' \<and>
   (\<exists>N \<ge> 1. fst (ensureUniqueFilename ''deed.tar.gz'' [''deed.tar.gz'', ''deed.tar__dup1.gz'']) = dupName ''deed.tar.gz'' N)"
proof -
  have v: "map outputPath (assignOutputPaths ex_files) =
     [''706/A_Real_Estate/deed.tar.gz'', ''706/A_Real_Estate/deed.tar__dup1.gz'',
      ''706/A_Real_Estate/deed.tar__dup1__dup1.gz'', ''706/ReviewNeeded/Unknown/deed.tar.gz'']"
    by code_simp
  have m: "''deed.tar.gz'' \<in> set [''deed.tar.gz'', ''deed.tar__dup1.gz'']" by simp
  have e: "fst (ensureUniqueFilename ''deed.tar.gz'' [''deed.tar.gz'', ''deed.tar__dup1.gz'']) = ''deed.tar__dup2.gz''"
    by code_simp
  from output_paths_unique [of ex_files] have d: "distinct (map outputPath (assignOutputPaths ex_files))"
    by (rule conjunct1)
  from output_paths_unique [of ex_files] m
  have "\<exists>N \<ge> 1. ensureUniqueFilename ''deed.tar.gz'' [''deed.tar.gz'', ''deed.tar__dup1.gz'']
                 = (dupName ''deed.tar.gz'' N, [''deed.tar.gz'', ''deed.tar__dup1.gz''] @ [dupName ''deed.tar.gz'' N])"
    by blast
  then have "\<exists>N \<ge> 1. fst (ensureUniqueFilename ''deed.tar.gz'' [''deed.tar.gz'', ''deed.tar__dup1.gz'']) = dupName ''deed.tar.gz'' N"
    by auto
  with v m e d show ?thesis by blast
qed


section \<open>Properties of review clustering\<close>

lemma addAll_append: "addAll acc (xs @ ys) = addAll (addAll acc xs) ys"
  by (simp add: addAll_def)


lemma addAll_distinct: "distinct acc \<Longrightarrow> distinct (addAll acc xs)"
  unfolding addAll_def by (induction xs arbitrary: acc) auto



lemma addAll_known: "set xs \<subseteq> set acc \<Longrightarrow> addAll acc xs = acc"
  unfolding addAll_def by (induction xs arbitrary: acc) auto

lemma addAll_fresh: "distinct (acc @ xs) \<Longrightarrow> addAll acc xs = acc @ xs"
  unfolding addAll_def by (induction xs arbitrary: acc) auto

lemma arrayFromSet_idem_append: "arrayFromSet (arrayFromSet xs @ ys) = arrayFromSet (xs @ ys)"
proof -
  have "addAll [] (arrayFromSet xs) = arrayFromSet xs"
    using addAll_fresh [of "[]" "arrayFromSet xs"] addAll_distinct [of "[]" xs]
    by (simp add: arrayFromSet_def)
  then show ?thesis
    by (simp add: arrayFromSet_def addAll_append)
qed



























section \<open>Properties of configuration validation\<close>

lemma collect_nil_iff: "collect f xs = Inr [] \<longleftrightarrow> (\<forall>x \<in> set xs. f x = Inr [])"
  by (induction xs) (auto split: sum.splits)

lemma enumerate_all: "(\<forall>e \<in> set (enumerate n xs). P (snd e)) \<longleftrightarrow> (\<forall>x \<in> set xs. P x)"
proof -
  have "set xs = snd ` set (enumerate n xs)"
    by (metis list.set_map map_snd_enumerate)
  then show ?thesis by auto
qed

lemma nullish_typeOf: "nullish v \<Longrightarrow> typeOf (getProp v k) = TUndefined"
  by (cases v) auto

lemma checkTerm_nil: "checkTerm te we e = Inr [] \<longleftrightarrow> validTerm (snd e)"
  by (cases e) (auto simp: checkTerm_def validTerm_def nullish_typeOf)

lemma checkTerms_nil:
  assumes "isArray v"
  shows "checkTerms te we v = Inr [] \<longleftrightarrow> (\<forall>kw \<in> set (elements v). validTerm kw)"
proof -
  from assms have "\<not> nullish v" by (cases v) auto
  with assms have "checkTerms te we v = collect (checkTerm te we) (enumerate 0 (elements v))"
    by (simp add: checkTerms_def entriesOf_def)
  then show ?thesis
    by (simp add: collect_nil_iff checkTerm_nil enumerate_all [of 0 "elements v" validTerm])
qed

lemma checkSchedule_nil: "checkSchedule e = Inr [] \<longleftrightarrow> validSchedule (snd e)"
proof (cases e)
  case (Pair index s)
  show ?thesis
  proof (cases "truthy s \<and> typeOf s = TObject \<and>
      typeOf (getProp s ''id'') = TString \<and> truthy (getProp s ''id'') \<and>
      typeOf (getProp s ''label'') = TString \<and> truthy (getProp s ''label'') \<and>
      isArray (getProp s ''keywords'') \<and> isArray (getProp s ''smallTerms'')")
    case True
    then have kw: "isArray (getProp s ''keywords'')" and st: "isArray (getProp s ''smallTerms'')"
      by simp_all
    from True Pair show ?thesis
      using checkTerms_nil [OF kw, of "KeywordTermMustBeString (getProp s ''id'')" "KeywordWeightMustBeNumber (getProp s ''id'')"]
            checkTerms_nil [OF st, of "SmallTermTermMustBeString (getProp s ''id'')" "SmallTermWeightMustBeNumber (getProp s ''id'')"]
      by (auto simp: checkSchedule_def validSchedule_def Let_def split: sum.splits)
  next
    case False
    with Pair show ?thesis
      by (auto simp: checkSchedule_def validSchedule_def Let_def split: sum.splits)
  qed
qed

lemma checkRule_nil: "checkRule regexError e = Inr [] \<longleftrightarrow> validRule regexError (snd e)"
  by (cases e) (auto simp: checkRule_def validRule_def split: jsValue.splits option.splits)

lemma schedules_nil:
  "collect checkSchedule (enumerate 0 xs) = Inr [] \<longleftrightarrow> (\<forall>s \<in> set xs. validSchedule s)"
  by (simp add: collect_nil_iff checkSchedule_nil enumerate_all [of 0 xs validSchedule])

lemma rules_nil:
  "collect (checkRule regexError) (enumerate 0 xs) = Inr [] \<longleftrightarrow> (\<forall>r \<in> set xs. validRule regexError r)"
  by (simp add: collect_nil_iff checkRule_nil enumerate_all [of 0 xs "validRule regexError"])


text \<open>
  The validator throws in exactly one situation: some schedule that is an object has a
  \<open>keywords\<close> or \<open>smallTerms\<close> value over which the loop throws.
\<close>

lemma collect_throws_iff: "(\<exists>e. collect f xs = Inl e) \<longleftrightarrow> (\<exists>x \<in> set xs. \<exists>e. f x = Inl e)"
  by (induction xs) (auto split: sum.splits)


lemma checkTerms_throws_iff: "(\<exists>e. checkTerms te we v = Inl e) \<longleftrightarrow> throwingTerms v"
proof (cases "nullish v")
  case True
  then show ?thesis by (cases v) (auto simp: checkTerms_def entriesOf_def throwingTerms_def)
next
  case False
  note nn = this
  show ?thesis
  proof (cases "isArray v")
    case False
    with nn show ?thesis by (simp add: checkTerms_def entriesOf_def throwingTerms_def)
  next
    case True
    have one: "(\<exists>e. checkTerm te we x = Inl e) \<longleftrightarrow> nullish (snd x)" for x
      by (cases x) (auto simp: checkTerm_def)
    have "(\<exists>x \<in> set (enumerate 0 (elements v)). \<exists>e. checkTerm te we x = Inl e)
            \<longleftrightarrow> (\<exists>x \<in> set (enumerate 0 (elements v)). nullish (snd x))"
      by (simp only: one)
    also have "\<dots> \<longleftrightarrow> (\<exists>kw \<in> set (elements v). nullish kw)"
      using enumerate_all [of 0 "elements v" "\<lambda>kw. \<not> nullish kw"] by blast
    finally show ?thesis
      using nn True
      by (simp add: checkTerms_def entriesOf_def throwingTerms_def collect_throws_iff list_ex_iff)
  qed
qed

lemma checkSchedule_throws_iff:
  "(\<exists>e. checkSchedule x = Inl e) \<longleftrightarrow>
     truthy (snd x) \<and> typeOf (snd x) = TObject \<and>
     (throwingTerms (getProp (snd x) ''keywords'') \<or> throwingTerms (getProp (snd x) ''smallTerms''))"
proof (cases x)
  case (Pair index s)
  let ?k = "checkTerms (KeywordTermMustBeString (getProp s ''id'')) (KeywordWeightMustBeNumber (getProp s ''id''))
              (getProp s ''keywords'')"
  let ?t = "checkTerms (SmallTermTermMustBeString (getProp s ''id'')) (SmallTermWeightMustBeNumber (getProp s ''id''))
              (getProp s ''smallTerms'')"
  have k: "(\<exists>e. ?k = Inl e) \<longleftrightarrow> throwingTerms (getProp s ''keywords'')"
    by (rule checkTerms_throws_iff)
  have t: "(\<exists>e. ?t = Inl e) \<longleftrightarrow> throwingTerms (getProp s ''smallTerms'')"
    by (rule checkTerms_throws_iff)
  show ?thesis
  proof (cases "truthy s \<and> typeOf s = TObject")
    case False
    with Pair show ?thesis by (auto simp: checkSchedule_def)
  next
    case True
    with Pair have "(\<exists>e. checkSchedule x = Inl e) \<longleftrightarrow> (\<exists>e. ?k = Inl e) \<or> (\<exists>e. ?t = Inl e)"
      by (auto simp: checkSchedule_def Let_def split: sum.splits)
    with True Pair k t show ?thesis by simp
  qed
qed

lemma validateScheduleConfig_throws_iff:
  "(\<exists>e. validateScheduleConfig regexError raw = Inl e) \<longleftrightarrow>
     truthy raw \<and> typeOf raw = TObject \<and>
     (\<exists>s \<in> set (elements (getProp raw ''schedules'')).
        truthy s \<and> typeOf s = TObject \<and>
        (throwingTerms (getProp s ''keywords'') \<or> throwingTerms (getProp s ''smallTerms'')))"
proof (cases "truthy raw \<and> typeOf raw = TObject")
  case False
  then show ?thesis by (auto simp: validateScheduleConfig_def)
next
  case True
  let ?ss = "elements (getProp raw ''schedules'')"
  let ?rs = "elements (getProp raw ''filenameRules'')"
  have r: "\<not> (\<exists>e. collect (checkRule regexError) (enumerate 0 ?rs) = Inl e)"
    by (auto simp: collect_throws_iff checkRule_def split: prod.splits)
  have "(\<exists>e. validateScheduleConfig regexError raw = Inl e)
          \<longleftrightarrow> (\<exists>e. collect checkSchedule (enumerate 0 ?ss) = Inl e)"
    using True r
    by (auto simp: validateScheduleConfig_def Let_def split: sum.splits)
  also have "\<dots> \<longleftrightarrow> (\<exists>x \<in> set (enumerate 0 ?ss). truthy (snd x) \<and> typeOf (snd x) = TObject \<and>
     (throwingTerms (getProp (snd x) ''keywords'') \<or> throwingTerms (getProp (snd x) ''smallTerms'')))"
    by (simp add: collect_throws_iff checkSchedule_throws_iff)
  also have "\<dots> \<longleftrightarrow> (\<exists>s \<in> set ?ss. truthy s \<and> typeOf s = TObject \<and>
        (throwingTerms (getProp s ''keywords'') \<or> throwingTerms (getProp s ''smallTerms'')))"
    using enumerate_all [of 0 ?ss "\<lambda>s. \<not> (truthy s \<and> typeOf s = TObject \<and>
        (throwingTerms (getProp s ''keywords'') \<or> throwingTerms (getProp s ''smallTerms'')))"]
    by blast
  finally show ?thesis using True by simp
qed


text \<open>
  Claim C8 as stated fails: a configuration with the weight \<open>Infinity\<close> is accepted, and a
  configuration whose \<open>keywords\<close> is a string, or whose keyword list holds \<open>null\<close>, makes the
  validator throw a \<open>TypeError\<close> instead of returning errors.
\<close>

theorem validation_counterexample:
  "validateScheduleConfig ex_regexError (ex_rawConfig (JArray []) (JNumber PosInfinity)) =
     Inr \<lparr> config_v = Some (ex_rawConfig (JArray []) (JNumber PosInfinity)), errors = [] \<rparr> \<and>
   validateScheduleConfig ex_regexError (ex_rawConfig (JString ''deed'') (JNumber (Finite 2))) = Inl TypeError \<and>
   validateScheduleConfig ex_regexError (ex_rawConfig (JArray [JNull]) (JNumber (Finite 2))) = Inl TypeError"
  by code_simp


text \<open>
  Claim C8, amended. A structurally valid value (weights being numbers other than \<open>NaN\<close>) is
  returned as the configuration, with an empty error list; and whenever the validator
  returns, it returns either the unchanged input with an empty error list, the input then
  being structurally valid, or no configuration and a non-empty error list, the input then
  not being structurally valid. In particular a configuration with a weight that is not a
  number or is \<open>NaN\<close>, or with a pattern that does not compile, is never returned.
\<close>

theorem validation_all_or_nothing:
  "(structurallyValid regexError raw \<longrightarrow>
      validateScheduleConfig regexError raw = Inr \<lparr> config_v = Some raw, errors = [] \<rparr>) \<and>
   (\<forall>r. validateScheduleConfig regexError raw = Inr r \<longrightarrow>
      (config_v r = Some raw \<and> errors r = [] \<and> structurallyValid regexError raw) \<or>
      (config_v r = None \<and> errors r \<noteq> [] \<and> \<not> structurallyValid regexError raw))"
proof (cases "truthy raw \<and> typeOf raw = TObject")
  case False
  then show ?thesis
    by (auto simp: validateScheduleConfig_def structurallyValid_def)
next
  case True
  let ?ss = "elements (getProp raw ''schedules'')"
  let ?rs = "elements (getProp raw ''filenameRules'')"
  show ?thesis
  proof (cases "collect checkSchedule (enumerate 0 ?ss)")
    case (Inl e)
    then have "\<not> (\<forall>s \<in> set ?ss. validSchedule s)"
      using schedules_nil [of ?ss] by auto
    with True Inl show ?thesis
      by (auto simp: validateScheduleConfig_def structurallyValid_def Let_def)
  next
    case (Inr errs1)
    note s = this
    show ?thesis
    proof (cases "collect (checkRule regexError) (enumerate 0 ?rs)")
      case (Inl e)
      then have "\<not> (\<forall>r \<in> set ?rs. validRule regexError r)"
        using rules_nil [of regexError ?rs] by auto
      with True s Inl show ?thesis
        by (auto simp: validateScheduleConfig_def structurallyValid_def Let_def)
    next
      case (Inr errs2)
      have a: "errs1 = [] \<longleftrightarrow> (\<forall>s \<in> set ?ss. validSchedule s)"
        using schedules_nil [of ?ss] s by auto
      have b: "errs2 = [] \<longleftrightarrow> (\<forall>r \<in> set ?rs. validRule regexError r)"
        using rules_nil [of regexError ?rs] Inr by auto
      from True s Inr a b show ?thesis
        by (auto simp: validateScheduleConfig_def structurallyValid_def Let_def)
    qed
  qed
qed


theorem validation_all_or_nothing_witness:
  "structurallyValid ex_regexError (ex_rawConfig (JArray []) (JNumber (Finite 2))) \<and>
   validateScheduleConfig ex_regexError (ex_rawConfig (JArray []) (JNumber (Finite 2))) =
     Inr \<lparr> config_v = Some (ex_rawConfig (JArray []) (JNumber (Finite 2))), errors = [] \<rparr> \<and>
   validateScheduleConfig ex_regexError (ex_rawConfig JNull (JNumber NaN)) =
     Inr \<lparr> config_v = None,
           errors = [KeywordsMustBeArray (JString ''A_Real_Estate''),
                     SmallTermWeightMustBeNumber (JString ''A_Real_Estate'') 0] \<rparr> \<and>
   \<not> structurallyValid ex_regexError (ex_rawConfig JNull (JNumber NaN))"
proof -
  have v: "structurallyValid ex_regexError (ex_rawConfig (JArray []) (JNumber (Finite 2)))"
    by code_simp
  have e: "validateScheduleConfig ex_regexError (ex_rawConfig JNull (JNumber NaN)) =
     Inr \<lparr> config_v = None,
           errors = [KeywordsMustBeArray (JString ''A_Real_Estate''),
                     SmallTermWeightMustBeNumber (JString ''A_Real_Estate'') 0] \<rparr>"
    by code_simp
  from validation_all_or_nothing [of ex_regexError "ex_rawConfig (JArray []) (JNumber (Finite 2))"] v
  have a: "validateScheduleConfig ex_regexError (ex_rawConfig (JArray []) (JNumber (Finite 2))) =
     Inr \<lparr> config_v = Some (ex_rawConfig (JArray []) (JNumber (Finite 2))), errors = [] \<rparr>"
    by blast
  from validation_all_or_nothing [of ex_regexError "ex_rawConfig JNull (JNumber NaN)"] e
  have "\<not> structurallyValid ex_regexError (ex_rawConfig JNull (JNumber NaN))"
    by auto
  with v a e show ?thesis by blast
qed



end
